theory Spec2Isabelle
  imports Main "HOL-Library.Word" "HOL-Library.AList"
begin

unbundle bit_operations_syntax

section \<open>Bytes, slices and digests\<close>

text \<open>
  Go's \<open>[]byte\<close> is a list of 8-bit words and Go's \<open>string\<close> is a list of characters
  (a character is one byte). \<open>[]byte(s)\<close> is \<open>bytes_of_string\<close>.
\<close>

type_synonym byte = "8 word"

definition bytes_of_string :: "string \<Rightarrow> byte list" where
  "bytes_of_string s = map of_char s"

text \<open>
  \<open>make([]byte, n)\<close> is \<open>n\<close> zero bytes. The builtin \<open>copy(dst, src)\<close> overwrites the
  first \<open>min (len dst) (len src)\<close> elements of \<open>dst\<close> and never changes its length;
  \<open>copy(dst[k:], src)\<close> does the same from offset \<open>k\<close> of \<open>dst\<close>.
\<close>

definition make_bytes :: "nat \<Rightarrow> byte list" where
  "make_bytes n = replicate n 0"

definition copy_slice :: "'a list \<Rightarrow> 'a list \<Rightarrow> 'a list" where
  "copy_slice dst src =
     (let n = min (length dst) (length src) in take n src @ drop n dst)"

definition copy_slice_at :: "nat \<Rightarrow> 'a list \<Rightarrow> 'a list \<Rightarrow> 'a list" where
  "copy_slice_at k dst src = take k dst @ copy_slice (drop k dst) src"

text \<open>
  A SHA-256 digest is a value of Go's \<open>[32]byte\<close>: a 256-bit word. \<open>hash[:]\<close>, the slice
  of its 32 bytes (most significant first), is \<open>digest_bytes\<close>.
\<close>

type_synonym digest = "256 word"

definition digest_bytes :: "digest \<Rightarrow> byte list" where
  "digest_bytes h = map (\<lambda>i. ucast (drop_bit (8 * (31 - i)) h)) [0..<32]"

text \<open>The number a byte slice denotes, most significant byte first (\<open>big.Int.SetBytes\<close>).\<close>

definition be_nat :: "byte list \<Rightarrow> nat" where
  "be_nat bs = foldl (\<lambda>acc b. acc * 256 + unat b) 0 bs"

section \<open>The simplified wallet (internal/wallet/simple\_wallet.go)\<close>

subsection \<open>Primitives of the standard library\<close>

text \<open>
  The wallet calls \<open>crypto/sha256\<close>, \<open>crypto/elliptic\<close> and \<open>math/big\<close>. They are not
  code of the repository; the model takes them as the fields of a record.
  \<open>Sum256\<close> is \<open>sha256.Sum256\<close> (and \<open>sha256.New\<close>, \<open>Write\<close>, \<open>Sum(nil)\<close> on the
  concatenation of the writes), \<open>ScalarBaseMult\<close> the method of \<open>elliptic.P256()\<close>,
  \<open>Marshal\<close> is \<open>elliptic.Marshal\<close> on that curve.
\<close>

record stdlib =
  Sum256 :: "byte list \<Rightarrow> digest"
  ScalarBaseMult :: "byte list \<Rightarrow> int \<times> int"
  Marshal :: "int \<Rightarrow> int \<Rightarrow> byte list"

definition SeedLength :: nat where
  "SeedLength = 64"

subsection \<open>Seed derivation\<close>

definition generateSeedFromMnemonic :: "stdlib \<Rightarrow> string \<Rightarrow> string \<Rightarrow> byte list" where
  "generateSeedFromMnemonic L mnemonic passphrase =
     (let combined = mnemonic @ passphrase;
          hash = Sum256 L (bytes_of_string combined);
          seed = make_bytes SeedLength;
          seed = copy_slice seed (digest_bytes hash);
          hash2 = Sum256 L (digest_bytes hash);
          seed = copy_slice_at 32 seed (digest_bytes hash2)
      in seed)"

subsection \<open>Errors\<close>

text \<open>
  The package's error values, and the shapes of the other errors the code returns:
  \<open>errors.New(s)\<close> and \<open>fmt.Errorf\<close> without \<open>%w\<close> are \<open>ErrorString\<close>,
  \<open>fmt.Errorf("...: %w", err)\<close> is \<open>Wrapped\<close>, an error returned by a library call is
  \<open>External\<close>, \<open>accounts.ErrUnknownAccount\<close> of go-ethereum is \<open>ErrUnknownAccount\<close>, and
  a run-time panic (an index or a slice bound out of range) is \<open>Panic\<close>.
\<close>

datatype error =
    ErrInvalidMnemonic
  | ErrInvalidPath
  | ErrAccountNotFound
  | ErrInvalidEntropy
  | ErrWalletLocked
  | ErrInvalidPassphrase
  | ErrInvalidSeed
  | ErrKeyDerivationFailed
  | ErrUnknownAccount
  | ErrorString string
  | Wrapped string error
  | External nat
  | Panic

subsection \<open>Library functions on strings\<close>

text \<open>
  \<open>unicode.IsSpace\<close> on a code point, and \<open>utf8.DecodeRuneInString\<close>: the first code
  point of a string and its width in bytes; a byte that starts no well-formed encoding is
  the code point \<open>RuneError\<close> of width 1.
\<close>

definition IsSpace :: "nat \<Rightarrow> bool" where
  "IsSpace r = (r \<in> {0x09, 0x0A, 0x0B, 0x0C, 0x0D, 0x20, 0x85, 0xA0, 0x1680}
     \<or> (0x2000 \<le> r \<and> r \<le> 0x200A)
     \<or> r \<in> {0x2028, 0x2029, 0x202F, 0x205F, 0x3000})"

definition RuneError :: nat where
  "RuneError = 0xFFFD"

definition cont_byte :: "nat \<Rightarrow> bool" where
  "cont_byte b = (0x80 \<le> b \<and> b \<le> 0xBF)"

fun DecodeRune :: "string \<Rightarrow> nat \<times> nat" where
  "DecodeRune [] = (RuneError, 0)"
| "DecodeRune (c0 # cs) =
     (let b0 = (of_char c0 :: nat) in
      if b0 < 0x80 then (b0, 1)
      else if b0 < 0xC2 \<or> 0xF4 < b0 then (RuneError, 1)
      else if b0 < 0xE0 then
        (case cs of
           c1 # _ \<Rightarrow>
             (let b1 = (of_char c1 :: nat) in
              if cont_byte b1 then ((b0 mod 32) * 64 + b1 mod 64, 2) else (RuneError, 1))
         | _ \<Rightarrow> (RuneError, 1))
      else if b0 < 0xF0 then
        (case cs of
           c1 # c2 # _ \<Rightarrow>
             (let b1 = (of_char c1 :: nat); b2 = (of_char c2 :: nat);
                  lo = (if b0 = 0xE0 then 0xA0 else 0x80);
                  hi = (if b0 = 0xED then 0x9F else 0xBF) in
              if lo \<le> b1 \<and> b1 \<le> hi \<and> cont_byte b2
              then ((b0 mod 16) * 4096 + (b1 mod 64) * 64 + b2 mod 64, 3)
              else (RuneError, 1))
         | _ \<Rightarrow> (RuneError, 1))
      else
        (case cs of
           c1 # c2 # c3 # _ \<Rightarrow>
             (let b1 = (of_char c1 :: nat); b2 = (of_char c2 :: nat);
                  b3 = (of_char c3 :: nat);
                  lo = (if b0 = 0xF0 then 0x90 else 0x80);
                  hi = (if b0 = 0xF4 then 0x8F else 0xBF) in
              if lo \<le> b1 \<and> b1 \<le> hi \<and> cont_byte b2 \<and> cont_byte b3
              then ((b0 mod 8) * 262144 + (b1 mod 64) * 4096 + (b2 mod 64) * 64 + b3 mod 64, 4)
              else (RuneError, 1))
         | _ \<Rightarrow> (RuneError, 1)))"

text \<open>
  \<open>strings.Fields\<close> walks the string one code point at a time; a white-space code point
  closes the field that is open; the bytes of any other code point extend it (or open
  one). \<open>cur\<close> is the open field, empty when none is open.
\<close>

function FieldsFrom :: "string \<Rightarrow> string \<Rightarrow> string list" where
  "FieldsFrom cur s =
     (if s = [] then (if cur = [] then [] else [cur])
      else (let (r, sz) = DecodeRune s in
            if IsSpace r then (if cur = [] then [] else [cur]) @ FieldsFrom [] (drop sz s)
            else FieldsFrom (cur @ take sz s) (drop sz s)))"
  by pat_completeness auto
termination
proof (relation "measure (\<lambda>(cur, s). length s)")
  show "wf (measure (\<lambda>(cur, s). length s))" by simp
next
  fix cur s :: string and x :: "nat \<times> nat" and r sz :: nat
  assume a: "s \<noteq> []" "x = DecodeRune s" "(r, sz) = x"
  from a(1) have "0 < snd (DecodeRune s)"
    by (cases s) (auto simp: Let_def split: list.splits)
  with a have "0 < sz" by (metis snd_conv)
  with \<open>s \<noteq> []\<close> show "(([], drop sz s), (cur, s)) \<in> measure (\<lambda>(cur, s). length s)"
    by simp
next
  fix cur s :: string and x :: "nat \<times> nat" and r sz :: nat
  assume a: "s \<noteq> []" "x = DecodeRune s" "(r, sz) = x"
  from a(1) have "0 < snd (DecodeRune s)"
    by (cases s) (auto simp: Let_def split: list.splits)
  with a have "0 < sz" by (metis snd_conv)
  with \<open>s \<noteq> []\<close> show "((cur @ take sz s, drop sz s), (cur, s)) \<in> measure (\<lambda>(cur, s). length s)"
    by simp
qed

declare FieldsFrom.simps [simp del]

definition Fields :: "string \<Rightarrow> string list" where
  "Fields s = FieldsFrom [] s"

fun Join :: "string list \<Rightarrow> string \<Rightarrow> string" where
  "Join [] sep = []"
| "Join [w] sep = w"
| "Join (w # ws) sep = w @ sep @ Join ws sep"

text \<open>Go's \<open>%\<close> on \<open>int\<close> truncates towards zero.\<close>

definition go_rem :: "int \<Rightarrow> int \<Rightarrow> int" where
  "go_rem a b = sgn a * (\<bar>a\<bar> mod \<bar>b\<bar>)"

subsection \<open>Mnemonic module\<close>

text \<open>
  \<open>BIP39WordList\<close> is declared in a file of the package that is not among the sources; the
  model takes the list as the parameter \<open>wl\<close>. \<open>init\<close> fills \<open>bip39WordMap\<close> from it.
\<close>

definition MinEntropyBits :: int where
  "MinEntropyBits = 128"

definition MaxEntropyBits :: int where
  "MaxEntropyBits = 256"

definition bip39WordMap :: "string list \<Rightarrow> (string \<rightharpoonup> nat)" where
  "bip39WordMap wl = foldl (\<lambda>m (i, word). m(word \<mapsto> i)) Map.empty (zip [0..<length wl] wl)"

definition validateMnemonic :: "string list \<Rightarrow> string \<Rightarrow> bool" where
  "validateMnemonic wl mnemonic =
     (let words = Fields mnemonic;
          wordCount = length words in
      if wordCount \<noteq> 12 \<and> wordCount \<noteq> 15 \<and> wordCount \<noteq> 18 \<and> wordCount \<noteq> 21 \<and> wordCount \<noteq> 24
      then False
      else list_all (\<lambda>word. bip39WordMap wl word \<noteq> None) words)"

text \<open>
  \<open>rand.Read\<close> on a two-byte buffer either fails or fills both bytes. \<open>rnd i\<close> is the
  outcome of the call made for word \<open>i\<close> (the inner \<open>for\<close> of the source leaves at its
  first pass, so each word makes one call).
\<close>

type_synonym rand_source = "nat \<Rightarrow> error + (byte \<times> byte)"

function words_loop ::
  "string list \<Rightarrow> rand_source \<Rightarrow> nat \<Rightarrow> nat \<Rightarrow> string list \<Rightarrow> error + string list" where
  "words_loop wl rnd wordCount i words =
     (if i < wordCount then
        (case rnd i of
           Inl err \<Rightarrow> Inl (Wrapped ''failed to generate random bytes'' err)
         | Inr (b0, b1) \<Rightarrow>
             (let randomValue = (push_bit 8 (ucast b0 :: 16 word)) OR (ucast b1 :: 16 word);
                  wordIndex = unat (randomValue mod 2048) in
              if wordIndex < length wl
              then words_loop wl rnd wordCount (Suc i) (words[i := wl ! wordIndex])
              else Inl Panic))
      else Inr words)"
  by pat_completeness auto
termination
  by (relation "measure (\<lambda>(wl, rnd, wordCount, i, words). wordCount - i)") auto

declare words_loop.simps [simp del]

definition GenerateMnemonic :: "string list \<Rightarrow> rand_source \<Rightarrow> int \<Rightarrow> error + string" where
  "GenerateMnemonic wl rnd entropyBits =
     (if entropyBits < MinEntropyBits \<or> entropyBits > MaxEntropyBits \<or> go_rem entropyBits 32 \<noteq> 0
      then Inl ErrInvalidEntropy
      else
        (case (if entropyBits = 128 then Some 12
               else if entropyBits = 160 then Some 15
               else if entropyBits = 192 then Some 18
               else if entropyBits = 224 then Some 21
               else if entropyBits = 256 then Some (24 :: nat)
               else None) of
           None \<Rightarrow> Inl ErrInvalidEntropy
         | Some wordCount \<Rightarrow>
             (case words_loop wl rnd wordCount 0 (replicate wordCount []) of
                Inl err \<Rightarrow> Inl err
              | Inr words \<Rightarrow> Inr (Join words '' ''))))"

subsection \<open>Wallet state\<close>

text \<open>
  The wallet keeps pointers: \<open>seed\<close> is a slice over a byte array of its own,
  \<open>accounts\<close> maps an address to a \<open>*Account\<close> that \<open>Derive\<close> also hands to the caller,
  and an account points to its \<open>*ecdsa.PrivateKey\<close>. \<open>cleanup\<close> writes through these
  pointers, so the objects live in a store: a byte array, a key object and an account
  object at each reference, and \<open>next_ref\<close>, the next free reference. A nil pointer or
  slice is \<open>None\<close>. \<open>PublicKey\<close> of an account points into the key object
  (\<open>&privateKey.PublicKey\<close>); the curve of a key is always \<open>elliptic.P256()\<close> and has no
  field here.

  A Go map is a list of key-value pairs with distinct keys, in one of the orders a
  \<open>range\<close> over it may take; \<open>paths\<close> is never ranged over and is a partial function.
  Every method of the wallet holds \<open>w.mu\<close> for the whole of its body; the model runs one
  method at a time and has no field for the mutex. \<open>finalizer\<close> records whether
  \<open>runtime.SetFinalizer\<close> has \<open>cleanup\<close> registered for the wallet.
\<close>

type_synonym Address = "byte list"
type_synonym DerivationPath = "32 word list"
type_synonym ref = nat

definition AddressLength :: nat where
  "AddressLength = 20"

record ecdsa_PrivateKey =
  PrivateKey_D :: "int option"
  PublicKey_X :: int
  PublicKey_Y :: int

record Account =
  Address :: Address
  Path :: string
  Index :: "32 word"
  PrivateKey :: "ref option"
  PublicKey :: "ref option"
  CreatedAt :: nat

record memory =
  byte_arrays :: "ref \<Rightarrow> byte list"
  key_objects :: "ref \<Rightarrow> ecdsa_PrivateKey"
  account_objects :: "ref \<Rightarrow> Account"
  next_ref :: ref

record SimpleWallet =
  mnemonic :: string
  seed :: "ref option"
  masterKey :: ecdsa_PrivateKey
  accounts :: "(Address \<times> ref) list"
  paths :: "Address \<rightharpoonup> DerivationPath"
  isLocked :: bool
  finalizer :: bool

record WalletConfig =
  Passphrase :: string

definition DefaultConfig :: WalletConfig where
  "DefaultConfig = \<lparr> Passphrase = [] \<rparr>"

definition new_bytes :: "memory \<Rightarrow> byte list \<Rightarrow> ref \<times> memory" where
  "new_bytes m bs =
     (next_ref m, m\<lparr> byte_arrays := (byte_arrays m)(next_ref m := bs), next_ref := Suc (next_ref m) \<rparr>)"

definition new_key :: "memory \<Rightarrow> ecdsa_PrivateKey \<Rightarrow> ref \<times> memory" where
  "new_key m k =
     (next_ref m, m\<lparr> key_objects := (key_objects m)(next_ref m := k), next_ref := Suc (next_ref m) \<rparr>)"

definition new_account :: "memory \<Rightarrow> Account \<Rightarrow> ref \<times> memory" where
  "new_account m a =
     (next_ref m, m\<lparr> account_objects := (account_objects m)(next_ref m := a), next_ref := Suc (next_ref m) \<rparr>)"

subsection \<open>Construction\<close>

text \<open>
  \<open>gen\<close> is the outcome of \<open>ecdsa.GenerateKey(elliptic.P256(), rand.Reader)\<close>: an error
  or a fresh random key.
\<close>

definition newWallet ::
  "error + ecdsa_PrivateKey \<Rightarrow> memory \<Rightarrow> string \<Rightarrow> byte list \<Rightarrow> WalletConfig
     \<Rightarrow> error + SimpleWallet \<times> memory" where
  "newWallet gen m mnemonic_arg seed_arg config =
     (case gen of
        Inl err \<Rightarrow> Inl (Wrapped ''failed to create master key'' err)
      | Inr masterKey_new \<Rightarrow>
          (let (r, m') = new_bytes m (copy_slice (make_bytes (length seed_arg)) seed_arg) in
           Inr (\<lparr> mnemonic = mnemonic_arg, seed = Some r, masterKey = masterKey_new,
                  accounts = [], paths = Map.empty, isLocked = False, finalizer = True \<rparr>, m')))"

definition NewFromMnemonic ::
  "stdlib \<Rightarrow> string list \<Rightarrow> error + ecdsa_PrivateKey \<Rightarrow> memory \<Rightarrow> string \<Rightarrow> WalletConfig option
     \<Rightarrow> error + SimpleWallet \<times> memory" where
  "NewFromMnemonic L wl gen m mnemonic_arg config_arg =
     (let config = (case config_arg of None \<Rightarrow> DefaultConfig | Some c \<Rightarrow> c) in
      if \<not> validateMnemonic wl mnemonic_arg then Inl ErrInvalidMnemonic
      else
        (let seed_new = generateSeedFromMnemonic L mnemonic_arg (Passphrase config) in
         if length seed_new \<noteq> SeedLength then Inl ErrInvalidSeed
         else newWallet gen m mnemonic_arg seed_new config))"

definition NewFromSeed ::
  "error + ecdsa_PrivateKey \<Rightarrow> memory \<Rightarrow> byte list \<Rightarrow> WalletConfig option
     \<Rightarrow> error + SimpleWallet \<times> memory" where
  "NewFromSeed gen m seed_arg config_arg =
     (let config = (case config_arg of None \<Rightarrow> DefaultConfig | Some c \<Rightarrow> c) in
      if length seed_arg \<noteq> SeedLength then Inl ErrInvalidSeed
      else newWallet gen m [] seed_arg config)"

subsection \<open>Derivation\<close>

text \<open>The bytes \<open>hash.Write(w.seed)\<close> writes: those of the seed slice, none when it is nil.\<close>

definition seed_bytes :: "memory \<Rightarrow> SimpleWallet \<Rightarrow> byte list" where
  "seed_bytes m w = (case seed w of None \<Rightarrow> [] | Some r \<Rightarrow> byte_arrays m r)"

definition pathBytes :: "32 word \<Rightarrow> byte list" where
  "pathBytes component =
     [ucast (drop_bit 24 component), ucast (drop_bit 16 component),
      ucast (drop_bit 8 component), ucast component]"

definition derivePrivateKey ::
  "stdlib \<Rightarrow> memory \<Rightarrow> SimpleWallet \<Rightarrow> DerivationPath \<Rightarrow> error + ecdsa_PrivateKey" where
  "derivePrivateKey L m w path =
     (let keyBytes = digest_bytes (Sum256 L (seed_bytes m w @ concat (map pathBytes path)));
          (x, y) = ScalarBaseMult L keyBytes in
      Inr \<lparr> PrivateKey_D = Some (int (be_nat keyBytes)), PublicKey_X = x, PublicKey_Y = y \<rparr>)"

text \<open>\<open>pubkeyBytes[1:]\<close> panics on an empty slice.\<close>

definition pubkeyToAddress :: "stdlib \<Rightarrow> ecdsa_PrivateKey \<Rightarrow> error + Address" where
  "pubkeyToAddress L pubkey =
     (let pubkeyBytes = Marshal L (PublicKey_X pubkey) (PublicKey_Y pubkey) in
      if pubkeyBytes = [] then Inl Panic
      else
        (let hash = Sum256 L (drop 1 pubkeyBytes) in
         Inr (copy_slice (make_bytes AddressLength) (drop 12 (digest_bytes hash)))))"

function decimal :: "nat \<Rightarrow> string" where
  "decimal n =
     (if n < 10 then [char_of (48 + n)] else decimal (n div 10) @ [char_of (48 + n mod 10)])"
  by pat_completeness auto
termination
  by (relation "measure id") auto

declare decimal.simps [simp del]

definition formatDerivationPath :: "DerivationPath \<Rightarrow> string" where
  "formatDerivationPath path =
     (if length path = 0 then ''m''
      else foldl (\<lambda>result component.
             if component \<ge> 0x80000000
             then result @ ''/'' @ decimal (unat (component - 0x80000000)) @ [CHR 0x27]
             else result @ ''/'' @ decimal (unat component)) ''m'' path)"

definition ParseDerivationPath :: "string \<Rightarrow> error + DerivationPath" where
  "ParseDerivationPath path =
     (if path = ''m'' \<or> path = [] then Inr []
      else Inr [0x8000002C, 0x8000003C, 0x80000000, 0, 0])"

text \<open>
  \<open>Derive\<close> returns the pointer to the new account and the state after the call;
  \<open>now\<close> is the value of \<open>time.Now()\<close>.
\<close>

definition Derive ::
  "stdlib \<Rightarrow> nat \<Rightarrow> SimpleWallet \<times> memory \<Rightarrow> 32 word \<Rightarrow> (error + ref) \<times> SimpleWallet \<times> memory" where
  "Derive L now s index =
     (let (w, m) = s in
      if isLocked w then (Inl ErrWalletLocked, s)
      else
        (let path = [0x8000002C, 0x8000003C, 0x80000000, 0, index] in
         case derivePrivateKey L m w path of
           Inl err \<Rightarrow> (Inl (Wrapped ''key derivation failed'' err), s)
         | Inr privateKey \<Rightarrow>
             (let (kref, m1) = new_key m privateKey in
              case pubkeyToAddress L privateKey of
                Inl err \<Rightarrow> (Inl err, (w, m1))
              | Inr address \<Rightarrow>
                  (let account = \<lparr> Address = address, Path = formatDerivationPath path,
                                    Index = index, PrivateKey = Some kref, PublicKey = Some kref,
                                    CreatedAt = now \<rparr>;
                       (aref, m2) = new_account m1 account in
                   (Inr aref,
                    (w\<lparr> accounts := AList.update address aref (accounts w),
                        paths := (paths w)(address \<mapsto> path) \<rparr>, m2))))))"

definition Accounts :: "SimpleWallet \<times> memory \<Rightarrow> ref list" where
  "Accounts s = map snd (accounts (fst s))"

subsection \<open>Cleanup\<close>

definition secureClear :: "byte list \<Rightarrow> byte list" where
  "secureClear data = map (\<lambda>_. 0) data"

definition secureClearPrivateKey :: "ecdsa_PrivateKey \<Rightarrow> ecdsa_PrivateKey" where
  "secureClearPrivateKey key =
     (case PrivateKey_D key of None \<Rightarrow> key | Some _ \<Rightarrow> key\<lparr> PrivateKey_D := Some 0 \<rparr>)"

text \<open>The body of the loop over \<open>w.accounts\<close> in \<open>cleanup\<close>, for the account at \<open>aref\<close>.\<close>

definition clear_account :: "memory \<Rightarrow> ref \<Rightarrow> memory" where
  "clear_account m aref =
     (let account = account_objects m aref in
      case PrivateKey account of
        None \<Rightarrow> m
      | Some kref \<Rightarrow>
          m\<lparr> key_objects := (key_objects m)(kref := secureClearPrivateKey (key_objects m kref)),
             account_objects := (account_objects m)(aref := account\<lparr> PrivateKey := None \<rparr>) \<rparr>)"

definition cleanup :: "SimpleWallet \<times> memory \<Rightarrow> SimpleWallet \<times> memory" where
  "cleanup s =
     (let (w, m) = s;
          (w1, m1) = (case seed w of
                        None \<Rightarrow> (w, m)
                      | Some r \<Rightarrow>
                          (w\<lparr> seed := None \<rparr>,
                           m\<lparr> byte_arrays := (byte_arrays m)(r := secureClear (byte_arrays m r)) \<rparr>));
          m2 = foldl (\<lambda>m' (address, aref). clear_account m' aref) m1 (accounts w1)
      in (w1\<lparr> finalizer := False \<rparr>, m2))"

definition Close :: "SimpleWallet \<times> memory \<Rightarrow> error option \<times> SimpleWallet \<times> memory" where
  "Close s = (None, cleanup s)"

subsection \<open>What a caller sees of a derived account\<close>

text \<open>
  \<open>deref_account\<close> reads an account through its pointer: the address, the path, the index
  and the key objects behind \<open>PrivateKey\<close> and \<open>PublicKey\<close> (all fields but the time
  stamp). \<open>Derive_result\<close> is the error of a call of \<open>Derive\<close> or the account it returns,
  read in the store after the call.
\<close>

definition deref_account ::
  "memory \<Rightarrow> ref \<Rightarrow> Address \<times> string \<times> 32 word \<times> ecdsa_PrivateKey option \<times> ecdsa_PrivateKey option" where
  "deref_account m aref =
     (let a = account_objects m aref in
      (Address a, Path a, Index a, map_option (key_objects m) (PrivateKey a),
       map_option (key_objects m) (PublicKey a)))"

definition Derive_result ::
  "stdlib \<Rightarrow> nat \<Rightarrow> SimpleWallet \<times> memory \<Rightarrow> 32 word
     \<Rightarrow> error + Address \<times> string \<times> 32 word \<times> ecdsa_PrivateKey option \<times> ecdsa_PrivateKey option" where
  "Derive_result L now s index =
     (case Derive L now s index of
        (Inl err, s') \<Rightarrow> Inl err
      | (Inr aref, (w', m')) \<Rightarrow> Inr (deref_account m' aref))"

text \<open>
  What the model asks of the word list: it has 2048 entries (the package's test
  \<open>TestBIP39WordListInitialization\<close> checks this), and every entry is a non-empty word of
  ASCII characters other than white space.
\<close>

definition ascii_word :: "string \<Rightarrow> bool" where
  "ascii_word w = (w \<noteq> [] \<and> (\<forall>c \<in> set w. (of_char c :: nat) < 0x80 \<and> \<not> IsSpace (of_char c)))"

definition wordlist_ok :: "string list \<Rightarrow> bool" where
  "wordlist_ok wl = (length wl = 2048 \<and> (\<forall>w \<in> set wl. ascii_word w))"

section \<open>The go-ethereum wallet (hdwallet.go)\<close>

text \<open>
  Package \<open>hdwallet\<close> declares \<open>Wallet\<close>, \<open>NewFromMnemonic\<close>, \<open>Derive\<close> and other names
  that package \<open>wallet\<close> above declares too; its names carry the prefix \<open>hd_\<close> here.
\<close>

subsection \<open>Library functions\<close>

text \<open>
  \<open>hexutil.Encode\<close> and \<open>hex.EncodeToString\<close>, and \<open>hex.DecodeString\<close>, which fails on a
  string of odd length or with a character that is no hexadecimal digit.
\<close>

definition hexdigit :: "nat \<Rightarrow> char" where
  "hexdigit n = ''0123456789abcdef'' ! n"

definition hex_EncodeToString :: "byte list \<Rightarrow> string" where
  "hex_EncodeToString bs =
     concat (map (\<lambda>b. [hexdigit (unat b div 16), hexdigit (unat b mod 16)]) bs)"

definition hexutil_Encode :: "byte list \<Rightarrow> string" where
  "hexutil_Encode b = ''0x'' @ hex_EncodeToString b"

definition fromHexChar :: "char \<Rightarrow> nat option" where
  "fromHexChar c =
     (let n = (of_char c :: nat) in
      if 48 \<le> n \<and> n \<le> 57 then Some (n - 48)
      else if 97 \<le> n \<and> n \<le> 102 then Some (n - 97 + 10)
      else if 65 \<le> n \<and> n \<le> 70 then Some (n - 65 + 10)
      else None)"

fun hex_DecodeString :: "string \<Rightarrow> byte list option" where
  "hex_DecodeString [] = Some []"
| "hex_DecodeString [c] = None"
| "hex_DecodeString (a # b # rest) =
     (case (fromHexChar a, fromHexChar b, hex_DecodeString rest) of
        (Some x, Some y, Some bs) \<Rightarrow> Some (of_nat (x * 16 + y) # bs)
      | _ \<Rightarrow> None)"

text \<open>
  The wallet is built on \<open>btcsuite/btcutil/hdkeychain\<close>, \<open>go-ethereum\<close> and
  \<open>tyler-smith/go-bip39\<close>. The model takes their functions as the fields of a record, over
  the types \<open>'xk\<close> of extended keys, \<open>'sk\<close> of ECDSA private keys, \<open>'pk\<close> of ECDSA public
  keys and \<open>'tx\<close> of transactions:
  \<^item> \<open>NewMaster seed\<close> is \<open>hdkeychain.NewMaster(seed, &chaincfg.MainNetParams)\<close>,
    \<open>Child key n\<close> is \<open>key.Child(n)\<close>, \<open>ECPrivKey key\<close> is \<open>key.ECPrivKey()\<close> followed by
    \<open>ToECDSA()\<close>;
  \<^item> \<open>Public k\<close> is \<open>k.Public()\<close> asserted to \<open>*ecdsa.PublicKey\<close> (\<open>None\<close> when the
    assertion fails), \<open>PubkeyToAddress\<close>, \<open>FromECDSA\<close>, \<open>FromECDSAPub\<close> and \<open>Sign\<close> are
    those of \<open>go-ethereum/crypto\<close>;
  \<^item> \<open>types_SignTx tx k\<close> is \<open>types.SignTx(tx, types.HomesteadSigner{}, k)\<close> and
    \<open>Sender tx\<close> is \<open>tx.AsMessage(types.HomesteadSigner{})\<close> followed by \<open>From()\<close>;
  \<^item> \<open>Address_Hex\<close> is \<open>common.Address.Hex\<close>, which \<open>String\<close> returns too;
    \<open>DerivationPath_String\<close> and \<open>accounts_ParseDerivationPath\<close> are those of
    \<open>go-ethereum/accounts\<close>;
  \<^item> \<open>IsMnemonicValid\<close> and \<open>NewSeedWithErrorChecking\<close> are those of \<open>go-bip39\<close>.
\<close>

record ('xk, 'sk, 'pk, 'tx) ethlib =
  NewMaster :: "byte list \<Rightarrow> error + 'xk"
  Child :: "'xk \<Rightarrow> 32 word \<Rightarrow> error + 'xk"
  ECPrivKey :: "'xk \<Rightarrow> error + 'sk"
  Public :: "'sk \<Rightarrow> 'pk option"
  PubkeyToAddress :: "'pk \<Rightarrow> Address"
  FromECDSA :: "'sk \<Rightarrow> byte list"
  FromECDSAPub :: "'pk \<Rightarrow> byte list"
  Sign :: "byte list \<Rightarrow> 'sk \<Rightarrow> error + byte list"
  types_SignTx :: "'tx \<Rightarrow> 'sk \<Rightarrow> error + 'tx"
  Sender :: "'tx \<Rightarrow> error + Address"
  Address_Hex :: "Address \<Rightarrow> string"
  DerivationPath_String :: "DerivationPath \<Rightarrow> string"
  accounts_ParseDerivationPath :: "string \<Rightarrow> error + DerivationPath"
  IsMnemonicValid :: "string \<Rightarrow> bool"
  NewSeedWithErrorChecking :: "string \<Rightarrow> string \<Rightarrow> error + byte list"

subsection \<open>Wallet state\<close>

text \<open>
  \<open>accounts.Account\<close> and \<open>accounts.URL\<close> of go-ethereum, and the \<open>Wallet\<close> structure.
  \<open>stateLock\<close> has no field: the functions below are the methods run one at a time.
  Of the methods that touch the registry, \<open>Accounts\<close>, \<open>Contains\<close> and \<open>SignTx\<close> hold
  \<open>RLock\<close>; \<open>Derive\<close> holds \<open>RLock\<close> while it derives the address and \<open>Lock\<close> while it
  registers the account; \<open>Unpin\<close> holds \<open>RLock\<close>; \<open>SignHash\<close> takes no lock. \<open>Unpin\<close>
  under its lock is modelled with the threads further down.
\<close>

record URL =
  URL_Scheme :: string
  URL_Path :: string

record hd_Account =
  hd_Address :: Address
  hd_URL :: URL

record 'xk Wallet =
  hd_mnemonic :: string
  hd_masterKey :: 'xk
  hd_seed :: "byte list"
  hd_url :: URL
  hd_paths :: "Address \<rightharpoonup> DerivationPath"
  hd_accounts :: "hd_Account list"

subsection \<open>Construction\<close>

definition hd_newWallet :: "('xk, 'sk, 'pk, 'tx) ethlib \<Rightarrow> byte list \<Rightarrow> error + 'xk Wallet" where
  "hd_newWallet L seed_arg =
     (case NewMaster L seed_arg of
        Inl err \<Rightarrow> Inl err
      | Inr masterKey_new \<Rightarrow>
          Inr \<lparr> hd_mnemonic = [], hd_masterKey = masterKey_new, hd_seed = seed_arg,
                hd_url = \<lparr> URL_Scheme = [], URL_Path = [] \<rparr>,
                hd_paths = Map.empty, hd_accounts = [] \<rparr>)"

definition hd_NewSeedFromMnemonic :: "('xk, 'sk, 'pk, 'tx) ethlib \<Rightarrow> string \<Rightarrow> error + byte list" where
  "hd_NewSeedFromMnemonic L mnemonic_arg =
     (if mnemonic_arg = [] then Inl (ErrorString ''Mnemonic is empty, require one.'')
      else NewSeedWithErrorChecking L mnemonic_arg [])"

definition hd_NewFromMnemonic :: "('xk, 'sk, 'pk, 'tx) ethlib \<Rightarrow> string \<Rightarrow> error + 'xk Wallet" where
  "hd_NewFromMnemonic L mnemonic_arg =
     (if mnemonic_arg = [] then Inl (ErrorString ''Mnemonic string is empty, require one.'')
      else if \<not> IsMnemonicValid L mnemonic_arg then Inl (ErrorString ''Mnemonic string is invalid.'')
      else
        (case hd_NewSeedFromMnemonic L mnemonic_arg of
           Inl err \<Rightarrow> Inl err
         | Inr seed_new \<Rightarrow>
             (case hd_newWallet L seed_new of
                Inl err \<Rightarrow> Inl err
              | Inr wallet \<Rightarrow> Inr (wallet\<lparr> hd_mnemonic := mnemonic_arg \<rparr>))))"

definition hd_NewFromSeed :: "('xk, 'sk, 'pk, 'tx) ethlib \<Rightarrow> byte list \<Rightarrow> error + 'xk Wallet" where
  "hd_NewFromSeed L seed_arg =
     (if length seed_arg = 0 then Inl (ErrorString ''Seed is empty, require one.'')
      else hd_newWallet L seed_arg)"

subsection \<open>Derivation\<close>

fun child_loop :: "('xk, 'sk, 'pk, 'tx) ethlib \<Rightarrow> 'xk \<Rightarrow> DerivationPath \<Rightarrow> error + 'xk" where
  "child_loop L key [] = Inr key"
| "child_loop L key (n # path) =
     (case Child L key n of
        Inl err \<Rightarrow> Inl err
      | Inr key' \<Rightarrow> child_loop L key' path)"

definition hd_derivePrivateKey ::
  "('xk, 'sk, 'pk, 'tx) ethlib \<Rightarrow> 'xk Wallet \<Rightarrow> DerivationPath \<Rightarrow> error + 'sk" where
  "hd_derivePrivateKey L w path =
     (case child_loop L (hd_masterKey w) path of
        Inl err \<Rightarrow> Inl err
      | Inr key \<Rightarrow>
          (case ECPrivKey L key of
             Inl err \<Rightarrow> Inl err
           | Inr privateKey \<Rightarrow> Inr privateKey))"

definition hd_derivePublicKey ::
  "('xk, 'sk, 'pk, 'tx) ethlib \<Rightarrow> 'xk Wallet \<Rightarrow> DerivationPath \<Rightarrow> error + 'pk" where
  "hd_derivePublicKey L w path =
     (case hd_derivePrivateKey L w path of
        Inl err \<Rightarrow> Inl err
      | Inr privateKeyECDSA \<Rightarrow>
          (case Public L privateKeyECDSA of
             None \<Rightarrow> Inl (ErrorString ''Failed to obtain an ECDSA public key.'')
           | Some publicKeyECDSA \<Rightarrow> Inr publicKeyECDSA))"

definition hd_deriveAddress ::
  "('xk, 'sk, 'pk, 'tx) ethlib \<Rightarrow> 'xk Wallet \<Rightarrow> DerivationPath \<Rightarrow> error + Address" where
  "hd_deriveAddress L w path =
     (case hd_derivePublicKey L w path of
        Inl err \<Rightarrow> Inl err
      | Inr publicKeyECDSA \<Rightarrow> Inr (PubkeyToAddress L publicKeyECDSA))"

subsection \<open>The account registry\<close>

definition hd_Open :: "'xk Wallet \<Rightarrow> string \<Rightarrow> error option \<times> 'xk Wallet" where
  "hd_Open w passphrase = (None, w)"

definition hd_Close :: "'xk Wallet \<Rightarrow> error option \<times> 'xk Wallet" where
  "hd_Close w = (None, w)"

definition hd_Accounts :: "'xk Wallet \<Rightarrow> hd_Account list" where
  "hd_Accounts w =
     (let cpy = replicate (length (hd_accounts w))
                  \<lparr> hd_Address = make_bytes 20, hd_URL = \<lparr> URL_Scheme = [], URL_Path = [] \<rparr> \<rparr> in
      copy_slice cpy (hd_accounts w))"

definition hd_Contains :: "'xk Wallet \<Rightarrow> hd_Account \<Rightarrow> bool" where
  "hd_Contains w account = (case hd_paths w (hd_Address account) of None \<Rightarrow> False | Some _ \<Rightarrow> True)"

text \<open>
  The loop of \<open>Unpin\<close> over \<open>w.accounts\<close>: the index of the first account whose address
  prints as the argument's does.
\<close>

fun Unpin_loop ::
  "('xk, 'sk, 'pk, 'tx) ethlib \<Rightarrow> hd_Account list \<Rightarrow> nat \<Rightarrow> hd_Account \<Rightarrow> nat option" where
  "Unpin_loop L [] i account = None"
| "Unpin_loop L (acct # rest) i account =
     (if Address_Hex L (hd_Address acct) = Address_Hex L (hd_Address account) then Some i
      else Unpin_loop L rest (Suc i) account)"

definition hd_Unpin ::
  "('xk, 'sk, 'pk, 'tx) ethlib \<Rightarrow> 'xk Wallet \<Rightarrow> hd_Account \<Rightarrow> error option \<times> 'xk Wallet" where
  "hd_Unpin L w account =
     (case Unpin_loop L (hd_accounts w) 0 account of
        Some i \<Rightarrow>
          (None,
           w\<lparr> hd_accounts := take i (hd_accounts w) @ drop (i + 1) (hd_accounts w),
              hd_paths := (hd_paths w)(hd_Address account := None) \<rparr>)
      | None \<Rightarrow> (Some (ErrorString ''Account not found.''), w))"

definition hd_Derive ::
  "('xk, 'sk, 'pk, 'tx) ethlib \<Rightarrow> 'xk Wallet \<Rightarrow> DerivationPath \<Rightarrow> bool
     \<Rightarrow> (error + hd_Account) \<times> 'xk Wallet" where
  "hd_Derive L w path pin =
     (case hd_deriveAddress L w path of
        Inl err \<Rightarrow> (Inl err, w)
      | Inr address \<Rightarrow>
          (let account = \<lparr> hd_Address = address,
                            hd_URL = \<lparr> URL_Scheme = [], URL_Path = DerivationPath_String L path \<rparr> \<rparr> in
           if \<not> pin then (Inr account, w)
           else
             (case hd_paths w address of
                None \<Rightarrow>
                  (Inr account,
                   w\<lparr> hd_accounts := hd_accounts w @ [account],
                      hd_paths := (hd_paths w)(address \<mapsto> path) \<rparr>)
              | Some _ \<Rightarrow> (Inr account, w))))"

text \<open>
  The registry is well formed when the accounts of the list have distinct addresses and
  these are the addresses \<open>paths\<close> has an entry for. \<open>newWallet\<close> builds such a wallet, and
  \<open>Derive\<close> and \<open>Unpin\<close> keep it so (lemmas \<open>hd_newWallet_registry_ok\<close>,
  \<open>hd_Derive_registry_ok\<close>, \<open>hd_Unpin_registry_ok\<close>).
\<close>

definition registry_ok :: "'xk Wallet \<Rightarrow> bool" where
  "registry_ok w =
     (distinct (map hd_Address (hd_accounts w))
      \<and> set (map hd_Address (hd_accounts w)) = dom (hd_paths w))"

subsection \<open>Signing\<close>

definition hd_SignHash ::
  "('xk, 'sk, 'pk, 'tx) ethlib \<Rightarrow> 'xk Wallet \<Rightarrow> hd_Account \<Rightarrow> byte list \<Rightarrow> error + byte list" where
  "hd_SignHash L w account hash =
     (case hd_paths w (hd_Address account) of
        None \<Rightarrow> Inl ErrUnknownAccount
      | Some path \<Rightarrow>
          (case hd_derivePrivateKey L w path of
             Inl err \<Rightarrow> Inl err
           | Inr privateKey \<Rightarrow> Sign L hash privateKey))"

text \<open>\<open>chainID\<close> is a \<open>*big.Int\<close>, nil allowed; \<open>SignTx\<close> does not read it.\<close>

definition hd_SignTx ::
  "('xk, 'sk, 'pk, 'tx) ethlib \<Rightarrow> 'xk Wallet \<Rightarrow> hd_Account \<Rightarrow> 'tx \<Rightarrow> int option \<Rightarrow> error + 'tx" where
  "hd_SignTx L w account tx chainID =
     (case hd_paths w (hd_Address account) of
        None \<Rightarrow> Inl ErrUnknownAccount
      | Some path \<Rightarrow>
          (case hd_derivePrivateKey L w path of
             Inl err \<Rightarrow> Inl err
           | Inr privateKey \<Rightarrow>
               (case types_SignTx L tx privateKey of
                  Inl err \<Rightarrow> Inl err
                | Inr signedTx \<Rightarrow>
                    (case Sender L signedTx of
                       Inl err \<Rightarrow> Inl err
                     | Inr sender \<Rightarrow>
                         if sender \<noteq> hd_Address account
                         then Inl (ErrorString (''Wrong sender: want '' @ Address_Hex L (hd_Address account)
                                     @ '', got '' @ Address_Hex L sender))
                         else Inr signedTx))))"

definition hd_SignHashWithPassphrase ::
  "('xk, 'sk, 'pk, 'tx) ethlib \<Rightarrow> 'xk Wallet \<Rightarrow> hd_Account \<Rightarrow> string \<Rightarrow> byte list
     \<Rightarrow> error + byte list" where
  "hd_SignHashWithPassphrase L w account passphrase hash = hd_SignHash L w account hash"

definition hd_SignTxWithPassphrase ::
  "('xk, 'sk, 'pk, 'tx) ethlib \<Rightarrow> 'xk Wallet \<Rightarrow> hd_Account \<Rightarrow> string \<Rightarrow> 'tx \<Rightarrow> int option
     \<Rightarrow> error + 'tx" where
  "hd_SignTxWithPassphrase L w account passphrase tx chainID = hd_SignTx L w account tx chainID"

subsection \<open>Key accessors\<close>

definition hd_PrivateKey ::
  "('xk, 'sk, 'pk, 'tx) ethlib \<Rightarrow> 'xk Wallet \<Rightarrow> hd_Account \<Rightarrow> error + 'sk" where
  "hd_PrivateKey L w account =
     (case accounts_ParseDerivationPath L (URL_Path (hd_URL account)) of
        Inl err \<Rightarrow> Inl err
      | Inr path \<Rightarrow> hd_derivePrivateKey L w path)"

definition hd_PrivateKeyBytes ::
  "('xk, 'sk, 'pk, 'tx) ethlib \<Rightarrow> 'xk Wallet \<Rightarrow> hd_Account \<Rightarrow> error + byte list" where
  "hd_PrivateKeyBytes L w account =
     (case hd_PrivateKey L w account of
        Inl err \<Rightarrow> Inl err
      | Inr privateKey \<Rightarrow> Inr (FromECDSA L privateKey))"

text \<open>
  Indexing a string beyond its length panics; \<open>&&\<close> reads \<open>privateKeyHex[3]\<close> only when
  \<open>privateKeyHex[2]\<close> is \<open>'0'\<close>.
\<close>

definition hd_PrivateKeyHex ::
  "('xk, 'sk, 'pk, 'tx) ethlib \<Rightarrow> 'xk Wallet \<Rightarrow> hd_Account \<Rightarrow> error + string" where
  "hd_PrivateKeyHex L w account =
     (case hd_PrivateKeyBytes L w account of
        Inl err \<Rightarrow> Inl err
      | Inr privateKeyBytes \<Rightarrow>
          (let privateKeyHex = hexutil_Encode privateKeyBytes;
               privateKeyHex = drop 2 privateKeyHex in
           if length privateKeyHex \<le> 2 then Inl Panic
           else if privateKeyHex ! 2 = CHR ''0'' then
             (if length privateKeyHex \<le> 3 then Inl Panic
              else if privateKeyHex ! 3 = CHR ''0'' then Inr (drop 2 privateKeyHex)
              else Inr privateKeyHex)
           else Inr privateKeyHex))"

section \<open>Threads and the state lock\<close>

text \<open>
  \<open>sync.RWMutex\<close>: any number of readers or one writer. \<open>RLock\<close> and \<open>Lock\<close> are \<open>None\<close>
  when the caller would have to wait.
\<close>

record RWMutex =
  readers :: nat
  writer :: bool

definition RLock :: "RWMutex \<Rightarrow> RWMutex option" where
  "RLock mu = (if writer mu then None else Some (mu\<lparr> readers := Suc (readers mu) \<rparr>))"

definition RUnlock :: "RWMutex \<Rightarrow> RWMutex" where
  "RUnlock mu = mu\<lparr> readers := readers mu - 1 \<rparr>"

definition Lock :: "RWMutex \<Rightarrow> RWMutex option" where
  "Lock mu = (if writer mu \<or> 0 < readers mu then None else Some (mu\<lparr> writer := True \<rparr>))"

definition Unlock :: "RWMutex \<Rightarrow> RWMutex" where
  "Unlock mu = mu\<lparr> writer := False \<rparr>"

text \<open>
  \<open>Unpin\<close> as a thread runs it, one step for each statement that reads or writes the
  wallet: \<open>w.stateLock.RLock()\<close>; the \<open>range\<close> over \<open>w.accounts\<close> up to the first account
  whose address matches, at index \<open>i\<close>; the assignment
  \<open>w.accounts = append(w.accounts[:i], w.accounts[i+1:]...)\<close>, which reads \<open>w.accounts\<close>
  again and panics when \<open>i + 1\<close> exceeds its length then; \<open>delete(w.paths, ...)\<close>; and the
  deferred \<open>RUnlock\<close>, which also runs after a panic. \<open>run_Unpin\<close> runs two such threads, for
  the accounts \<open>a1\<close> and \<open>a2\<close>, in the order a schedule gives (thread 1 where it says 1,
  thread 2 elsewhere); it is \<open>None\<close> when the schedule asks a thread for a step it cannot
  take.
\<close>

datatype outcome = Returned "error option" | Panicked

datatype Unpin_pc =
    At_RLock
  | At_range
  | At_append nat
  | At_delete
  | At_RUnlock outcome
  | Finished outcome

fun Unpin_step ::
  "('xk, 'sk, 'pk, 'tx) ethlib \<Rightarrow> hd_Account \<Rightarrow> 'xk Wallet \<times> RWMutex \<Rightarrow> Unpin_pc
     \<Rightarrow> (('xk Wallet \<times> RWMutex) \<times> Unpin_pc) option" where
  "Unpin_step L account (w, mu) At_RLock =
     (case RLock mu of None \<Rightarrow> None | Some mu' \<Rightarrow> Some ((w, mu'), At_range))"
| "Unpin_step L account (w, mu) At_range =
     (case Unpin_loop L (hd_accounts w) 0 account of
        Some i \<Rightarrow> Some ((w, mu), At_append i)
      | None \<Rightarrow> Some ((w, mu), At_RUnlock (Returned (Some (ErrorString ''Account not found.'')))))"
| "Unpin_step L account (w, mu) (At_append i) =
     (if length (hd_accounts w) < i + 1 then Some ((w, mu), At_RUnlock Panicked)
      else Some ((w\<lparr> hd_accounts := take i (hd_accounts w) @ drop (i + 1) (hd_accounts w) \<rparr>, mu),
                 At_delete))"
| "Unpin_step L account (w, mu) At_delete =
     Some ((w\<lparr> hd_paths := (hd_paths w)(hd_Address account := None) \<rparr>, mu),
           At_RUnlock (Returned None))"
| "Unpin_step L account (w, mu) (At_RUnlock r) = Some ((w, RUnlock mu), Finished r)"
| "Unpin_step L account (w, mu) (Finished r) = None"

fun run_Unpin ::
  "('xk, 'sk, 'pk, 'tx) ethlib \<Rightarrow> hd_Account \<Rightarrow> hd_Account \<Rightarrow> nat list
     \<Rightarrow> ('xk Wallet \<times> RWMutex) \<times> Unpin_pc \<times> Unpin_pc
     \<Rightarrow> (('xk Wallet \<times> RWMutex) \<times> Unpin_pc \<times> Unpin_pc) option" where
  "run_Unpin L a1 a2 [] st = Some st"
| "run_Unpin L a1 a2 (t # sched) (sh, pc1, pc2) =
     (if t = 1 then
        (case Unpin_step L a1 sh pc1 of
           None \<Rightarrow> None
         | Some (sh', pc1') \<Rightarrow> run_Unpin L a1 a2 sched (sh', pc1', pc2))
      else
        (case Unpin_step L a2 sh pc2 of
           None \<Rightarrow> None
         | Some (sh', pc2') \<Rightarrow> run_Unpin L a1 a2 sched (sh', pc1, pc2')))"

definition unlocked :: RWMutex where
  "unlocked = \<lparr> readers = 0, writer = False \<rparr>"

section \<open>A concrete instance of the primitives\<close>

text \<open>
  To evaluate the model on inputs, the primitives are instantiated with small total
  functions of the right types: a digest and a curve operation that read their input as
  a number.
\<close>

definition toy_stdlib :: stdlib where
  "toy_stdlib = \<lparr> Sum256 = (\<lambda>bs. of_nat (be_nat bs) + 1),
                  ScalarBaseMult = (\<lambda>k. (int (be_nat k), int (be_nat k) + 1)),
                  Marshal = (\<lambda>x y. [4, of_int x, of_int y]) \<rparr>"

text \<open>A word list of the required shape and a random source that always delivers.\<close>

definition demo_wordlist :: "string list" where
  "demo_wordlist = ''abandon'' # replicate 2046 ''about'' @ [''zoo'']"

definition demo_rand :: rand_source where
  "demo_rand i = Inr (of_nat i, of_nat (7 * i))"

text \<open>
  The library of the go-ethereum wallet, instantiated likewise: an extended key is the
  seed followed by the bytes of the path, a private key a number read from it, a
  transaction a payload with the key that signed it.
\<close>

definition big_endian :: "nat \<Rightarrow> nat \<Rightarrow> byte list" where
  "big_endian n x = map (\<lambda>i. of_nat (x div 256 ^ (n - 1 - i))) [0..<n]"

definition toy_ethlib :: "(byte list, nat, nat, nat \<times> nat option) ethlib" where
  "toy_ethlib =
     \<lparr> NewMaster = (\<lambda>sd. if length sd < 16 \<or> 64 < length sd then Inl (External 1) else Inr sd),
       Child = (\<lambda>key n. Inr (key @ pathBytes n)),
       ECPrivKey = (\<lambda>key. Inr (Suc (be_nat key mod 65521))),
       Public = (\<lambda>sk. Some (3 * sk)),
       PubkeyToAddress = (\<lambda>pk. big_endian 20 pk),
       FromECDSA = (\<lambda>sk. big_endian 32 sk),
       FromECDSAPub = (\<lambda>pk. 4 # big_endian 64 pk),
       Sign = (\<lambda>hash sk. if length hash = 32 then Inr (hash @ [of_nat sk]) else Inl (External 2)),
       types_SignTx = (\<lambda>tx sk. Inr (fst tx, Some sk)),
       Sender = (\<lambda>tx. case snd tx of None \<Rightarrow> Inl (External 3) | Some sk \<Rightarrow> Inr (big_endian 20 (3 * sk))),
       Address_Hex = hexutil_Encode,
       DerivationPath_String = formatDerivationPath,
       accounts_ParseDerivationPath = ParseDerivationPath,
       IsMnemonicValid = validateMnemonic demo_wordlist,
       NewSeedWithErrorChecking = (\<lambda>m p. Inr (generateSeedFromMnemonic toy_stdlib m p)) \<rparr>"


text \<open>A store with no object in it, and states of the two wallets built on it.\<close>

definition empty_memory :: memory where
  "empty_memory =
     \<lparr> byte_arrays = (\<lambda>_. []),
       key_objects = (\<lambda>_. \<lparr> PrivateKey_D = None, PublicKey_X = 0, PublicKey_Y = 0 \<rparr>),
       account_objects = (\<lambda>_. \<lparr> Address = [], Path = [], Index = 0, PrivateKey = None,
                                   PublicKey = None, CreatedAt = 0 \<rparr>),
       next_ref = 0 \<rparr>"

definition demo_mnemonic :: string where
  "demo_mnemonic = Join (replicate 11 ''abandon'' @ [''about'']) '' ''"

definition demo_key :: "int \<Rightarrow> ecdsa_PrivateKey" where
  "demo_key d = \<lparr> PrivateKey_D = Some d, PublicKey_X = d + 1, PublicKey_Y = d + 2 \<rparr>"

definition demo_state :: "SimpleWallet \<times> memory" where
  "demo_state =
     (\<lparr> mnemonic = [], seed = Some 0, masterKey = demo_key 5, accounts = [([1, 2], 2)],
        paths = [[1, 2] \<mapsto> [0x8000002C, 0x8000003C, 0x80000000, 0, 0]],
        isLocked = False, finalizer = True \<rparr>,
      empty_memory
        \<lparr> byte_arrays := (byte_arrays empty_memory)(0 := [7, 8, 9]),
          key_objects := (key_objects empty_memory)(1 := demo_key 77),
          account_objects := (account_objects empty_memory)
             (2 := \<lparr> Address = [1, 2], Path = ''m/44'/60'/0'/0/0'', Index = 0,
                      PrivateKey = Some 1, PublicKey = Some 1, CreatedAt = 100 \<rparr>),
          next_ref := 3 \<rparr>)"

definition demo_hd_wallet :: "byte list Wallet" where
  "demo_hd_wallet =
     \<lparr> hd_mnemonic = [], hd_masterKey = replicate 64 1, hd_seed = replicate 64 1,
       hd_url = \<lparr> URL_Scheme = [], URL_Path = [] \<rparr>, hd_paths = Map.empty, hd_accounts = [] \<rparr>"


definition toy_ethlib_ones :: "(byte list, nat, nat, nat \<times> nat option) ethlib" where
  "toy_ethlib_ones = toy_ethlib \<lparr> FromECDSA := (\<lambda>sk. replicate 32 1) \<rparr>"

definition demo_path :: DerivationPath where
  "demo_path = [0x8000002C, 0x8000003C, 0x80000000, 0, 0]"

definition demo_pinned_wallet :: "byte list Wallet" where
  "demo_pinned_wallet = snd (hd_Derive toy_ethlib demo_hd_wallet demo_path True)"

definition demo_account :: hd_Account where
  "demo_account =
     (case fst (hd_Derive toy_ethlib demo_hd_wallet demo_path True) of
        Inr account \<Rightarrow> account
      | Inl err \<Rightarrow> \<lparr> hd_Address = [], hd_URL = \<lparr> URL_Scheme = [], URL_Path = [] \<rparr> \<rparr>)"

text \<open>A wallet with two pinned accounts.\<close>

definition account_A :: hd_Account where
  "account_A = \<lparr> hd_Address = replicate 19 0 @ [1],
                  hd_URL = \<lparr> URL_Scheme = [], URL_Path = ''m/44'/60'/0'/0/0'' \<rparr> \<rparr>"

definition account_B :: hd_Account where
  "account_B = \<lparr> hd_Address = replicate 19 0 @ [2],
                  hd_URL = \<lparr> URL_Scheme = [], URL_Path = ''m/44'/60'/0'/0/1'' \<rparr> \<rparr>"

definition two_pinned :: "byte list Wallet" where
  "two_pinned =
     demo_hd_wallet
       \<lparr> hd_paths := [hd_Address account_A \<mapsto> [0x8000002C, 0x8000003C, 0x80000000, 0, 0],
                      hd_Address account_B \<mapsto> [0x8000002C, 0x8000003C, 0x80000000, 0, 1]],
         hd_accounts := [account_A, account_B] \<rparr>"

definition demo_mnemonic15 :: string where
  "demo_mnemonic15 = Join (replicate 11 ''abandon'' @ [''about'', ''about'', ''about'', ''about'']) '' ''"

section \<open>Auxiliary definitions\<close>

text \<open>
  The loop of \<open>cleanup\<close> over the accounts, and what it comes to: the accounts at the
  references \<open>R\<close> lose their key pointer, and the keys they pointed to are cleared.
\<close>

definition clear_all :: "memory \<Rightarrow> (Address \<times> ref) list \<Rightarrow> memory" where
  "clear_all m xs = foldl (\<lambda>m' (address, aref). clear_account m' aref) m xs"

definition clear_refs :: "memory \<Rightarrow> ref set \<Rightarrow> memory" where
  "clear_refs m R =
     m\<lparr> key_objects := (\<lambda>k. if \<exists>r \<in> R. PrivateKey (account_objects m r) = Some k
                             then secureClearPrivateKey (key_objects m k) else key_objects m k),
        account_objects := (\<lambda>r. if r \<in> R then (account_objects m r)\<lparr> PrivateKey := None \<rparr>
                             else account_objects m r) \<rparr>"


section \<open>Properties\<close>

lemma length_digest_bytes: "length (digest_bytes h) = 32"
  by (simp add: digest_bytes_def)

lemma length_copy_slice: "length (copy_slice dst src) = length dst"
  by (simp add: copy_slice_def Let_def)

lemma length_copy_slice_at: "length (copy_slice_at k dst src) = length dst"
  by (simp add: copy_slice_at_def length_copy_slice)

lemma generateSeedFromMnemonic_eq:
  "generateSeedFromMnemonic L m p =
     digest_bytes (Sum256 L (bytes_of_string (m @ p))) @
     digest_bytes (Sum256 L (digest_bytes (Sum256 L (bytes_of_string (m @ p)))))"
  by (simp add: generateSeedFromMnemonic_def Let_def copy_slice_at_def copy_slice_def
      make_bytes_def SeedLength_def length_digest_bytes)

lemma length_generateSeedFromMnemonic: "length (generateSeedFromMnemonic L m p) = 64"
  by (simp add: generateSeedFromMnemonic_eq length_digest_bytes)

subsection \<open>Mnemonic generation and validation\<close>

lemma dom_fold_words:
  "length is = length ws \<Longrightarrow>
   dom (foldl (\<lambda>m (i, word). m(word \<mapsto> i)) m (zip is ws)) = dom m \<union> set ws"
proof (induction ws arbitrary: "is" m)
  case Nil
  then show ?case by simp
next
  case (Cons w ws)
  then obtain i is' where "is = i # is'" by (cases "is") auto
  with Cons show ?case by auto
qed

lemma bip39WordMap_exists: "bip39WordMap wl w = None \<longleftrightarrow> w \<notin> set wl"
proof -
  have "dom (bip39WordMap wl) = set wl"
    using dom_fold_words [of "[0..<length wl]" wl Map.empty] by (simp add: bip39WordMap_def)
  then show ?thesis by (metis domIff)
qed

lemma FieldsFrom_Nil: "FieldsFrom cur [] = (if cur = [] then [] else [cur])"
  by (subst FieldsFrom.simps) simp

lemma DecodeRune_ascii: "(of_char c :: nat) < 0x80 \<Longrightarrow> DecodeRune (c # cs) = (of_char c, 1)"
  by simp

lemma FieldsFrom_space: "FieldsFrom cur (CHR '' '' # s) = (if cur = [] then [] else [cur]) @ FieldsFrom [] s"
  by (subst FieldsFrom.simps) (simp add: IsSpace_def)

lemma FieldsFrom_ascii:
  "(of_char c :: nat) < 0x80 \<Longrightarrow> \<not> IsSpace (of_char c) \<Longrightarrow>
   FieldsFrom cur (c # s) = FieldsFrom (cur @ [c]) s"
  by (subst FieldsFrom.simps) simp

lemma FieldsFrom_word:
  "\<forall>c \<in> set w. (of_char c :: nat) < 0x80 \<and> \<not> IsSpace (of_char c) \<Longrightarrow>
   FieldsFrom cur (w @ s) = FieldsFrom (cur @ w) s"
  by (induction w arbitrary: cur) (simp_all add: FieldsFrom_ascii)

lemma FieldsFrom_Join:
  "\<forall>w \<in> set ws. ascii_word w \<Longrightarrow> ws \<noteq> [] \<Longrightarrow> FieldsFrom [] (Join ws '' '') = ws"
proof (induction ws)
  case Nil
  then show ?case by simp
next
  case (Cons w ws)
  then have w: "\<forall>c \<in> set w. (of_char c :: nat) < 0x80 \<and> \<not> IsSpace (of_char c)" "w \<noteq> []"
    by (simp_all add: ascii_word_def)
  show ?case
  proof (cases ws)
    case Nil
    then show ?thesis
      using FieldsFrom_word [OF w(1), of "[]" "[]"] w(2) by (simp add: FieldsFrom_Nil)
  next
    case (Cons v vs)
    then have "Join (w # ws) '' '' = w @ CHR '' '' # Join ws '' ''" by simp
    then have "FieldsFrom [] (Join (w # ws) '' '') = FieldsFrom w (CHR '' '' # Join ws '' '')"
      using FieldsFrom_word [OF w(1), of "[]"] by simp
    also have "\<dots> = w # FieldsFrom [] (Join ws '' '')"
      using w(2) by (simp add: FieldsFrom_space)
    also have "FieldsFrom [] (Join ws '' '') = ws"
      using Cons.IH Cons.prems Cons by simp
    finally show ?thesis .
  qed
qed

lemma Fields_Join:
  "\<forall>w \<in> set ws. ascii_word w \<Longrightarrow> Fields (Join ws '' '') = ws"
  by (cases "ws = []") (simp_all add: Fields_def FieldsFrom_Nil FieldsFrom_Join)

lemma words_loop_result:
  "length wl = 2048 \<Longrightarrow> \<forall>j. i \<le> j \<and> j < wordCount \<longrightarrow> (\<exists>p. rnd j = Inr p) \<Longrightarrow>
   length words = wordCount \<Longrightarrow>
   \<exists>ws. words_loop wl rnd wordCount i words = Inr ws \<and> length ws = wordCount
     \<and> (\<forall>j < wordCount. if j < i then ws ! j = words ! j else ws ! j \<in> set wl)"
proof (induction wl rnd wordCount i words rule: words_loop.induct)
  case (1 wl rnd wordCount i words)
  show ?case
  proof (cases "i < wordCount")
    case False
    with 1(3,4) show ?thesis by (subst words_loop.simps) simp
  next
    case True
    with 1(3) obtain b0 b1 where r: "rnd i = Inr (b0, b1)" by (metis le_refl surj_pair)
    define wordIndex where "wordIndex = unat ((push_bit 8 (ucast b0 :: 16 word) OR ucast b1) mod 2048)"
    have "(push_bit 8 (ucast b0 :: 16 word) OR ucast b1) mod 2048 < 2048"
      by (simp add: word_mod_less_divisor)
    then have lt: "wordIndex < length wl"
      unfolding wordIndex_def using 1(2) by (simp add: word_less_nat_alt)
    have step: "words_loop wl rnd wordCount i words =
        words_loop wl rnd wordCount (Suc i) (words[i := wl ! wordIndex])"
      using True r lt by (subst words_loop.simps) (simp add: wordIndex_def Let_def)
    have "\<exists>ws. words_loop wl rnd wordCount (Suc i) (words[i := wl ! wordIndex]) = Inr ws
        \<and> length ws = wordCount
        \<and> (\<forall>j < wordCount. if j < Suc i then ws ! j = (words[i := wl ! wordIndex]) ! j
                             else ws ! j \<in> set wl)"
    proof -
      have a: "length (words[i := wl ! wordIndex]) = wordCount" using 1(4) by simp
      have b: "\<forall>j. Suc i \<le> j \<and> j < wordCount \<longrightarrow> (\<exists>p. rnd j = Inr p)"
        using 1(3) by auto
      show ?thesis
        using 1(1) [OF True r refl refl refl lt [unfolded wordIndex_def] 1(2) b a [unfolded wordIndex_def]]
        unfolding wordIndex_def .
    qed
    then obtain ws where ws: "words_loop wl rnd wordCount (Suc i) (words[i := wl ! wordIndex]) = Inr ws"
      "length ws = wordCount"
      "\<forall>j < wordCount. if j < Suc i then ws ! j = (words[i := wl ! wordIndex]) ! j
                             else ws ! j \<in> set wl" by blast
    have "\<forall>j < wordCount. if j < i then ws ! j = words ! j else ws ! j \<in> set wl"
    proof (intro allI impI)
      fix j assume j: "j < wordCount"
      show "if j < i then ws ! j = words ! j else ws ! j \<in> set wl"
      proof (cases "j = i")
        case True
        with ws(3) j 1(4) lt show ?thesis by (auto dest!: spec [of _ i])
      next
        case False
        with ws(3) j show ?thesis by (auto dest!: spec [of _ j] split: if_splits)
      qed
    qed
    with step ws show ?thesis by simp
  qed
qed


lemma GenerateMnemonic_invalid:
  "entropyBits \<notin> {128, 160, 192, 224, 256} \<Longrightarrow> GenerateMnemonic wl rnd entropyBits = Inl ErrInvalidEntropy"
  by (simp add: GenerateMnemonic_def)

lemma GenerateMnemonic_words:
  assumes wl: "wordlist_ok wl"
    and e: "entropyBits \<in> {128, 160, 192, 224, 256}"
    and rnd: "\<forall>i < nat (entropyBits div 32 * 3). \<exists>p. rnd i = Inr p"
  shows "\<exists>ws. GenerateMnemonic wl rnd entropyBits = Inr (Join ws '' '')
     \<and> length ws = nat (entropyBits div 32 * 3) \<and> set ws \<subseteq> set wl"
proof -
  define wordCount where "wordCount = nat (entropyBits div 32 * 3)"
  have g: "GenerateMnemonic wl rnd entropyBits =
      (case words_loop wl rnd wordCount 0 (replicate wordCount []) of
         Inl err \<Rightarrow> Inl err | Inr words \<Rightarrow> Inr (Join words '' ''))"
    using e by (auto simp: GenerateMnemonic_def wordCount_def MinEntropyBits_def
        MaxEntropyBits_def go_rem_def)
  have "\<exists>ws. words_loop wl rnd wordCount 0 (replicate wordCount []) = Inr ws \<and> length ws = wordCount
     \<and> (\<forall>j < wordCount. if j < 0 then ws ! j = replicate wordCount [] ! j else ws ! j \<in> set wl)"
    using wl rnd by (intro words_loop_result) (simp_all add: wordlist_ok_def wordCount_def)
  then obtain ws where ws: "words_loop wl rnd wordCount 0 (replicate wordCount []) = Inr ws"
    "length ws = wordCount" "\<forall>j < wordCount. ws ! j \<in> set wl" by auto
  from ws(2,3) have "set ws \<subseteq> set wl" by (auto simp: in_set_conv_nth)
  with g ws show ?thesis by (auto simp: wordCount_def)
qed

text \<open>
  C7. For \<open>entropyBits\<close> in \<open>{128, 160, 192, 224, 256}\<close>, with the word list of the
  required shape and a random source that delivers its bytes, \<open>GenerateMnemonic\<close> returns
  a phrase of \<open>entropyBits / 32 * 3\<close> words (12, 15, 18, 21 or 24), each from the word
  list, which \<open>validateMnemonic\<close> accepts; for every other \<open>entropyBits\<close> it fails with
  \<open>ErrInvalidEntropy\<close>.
\<close>

theorem GenerateMnemonic_entropy:
  "(wordlist_ok wl \<and> entropyBits \<in> {128, 160, 192, 224, 256}
      \<and> (\<forall>i < nat (entropyBits div 32 * 3). \<exists>p. rnd i = Inr p) \<longrightarrow>
      (\<exists>phrase. GenerateMnemonic wl rnd entropyBits = Inr phrase
         \<and> length (Fields phrase) = nat (entropyBits div 32 * 3)
         \<and> length (Fields phrase) \<in> {12, 15, 18, 21, 24}
         \<and> set (Fields phrase) \<subseteq> set wl
         \<and> validateMnemonic wl phrase))
   \<and> (entropyBits \<notin> {128, 160, 192, 224, 256} \<longrightarrow>
        GenerateMnemonic wl rnd entropyBits = Inl ErrInvalidEntropy)"
proof (intro conjI impI)
  assume a: "wordlist_ok wl \<and> entropyBits \<in> {128, 160, 192, 224, 256}
      \<and> (\<forall>i < nat (entropyBits div 32 * 3). \<exists>p. rnd i = Inr p)"
  then obtain ws where ws: "GenerateMnemonic wl rnd entropyBits = Inr (Join ws '' '')"
    "length ws = nat (entropyBits div 32 * 3)" "set ws \<subseteq> set wl"
    using GenerateMnemonic_words [of wl entropyBits rnd] by blast
  from a ws(3) have "\<forall>w \<in> set ws. ascii_word w" by (auto simp: wordlist_ok_def)
  then have f: "Fields (Join ws '' '') = ws" by (rule Fields_Join)
  from a ws(2) have n: "length ws \<in> {12, 15, 18, 21, 24}" by auto
  have "\<forall>word \<in> set ws. bip39WordMap wl word \<noteq> None"
    using ws(3) unfolding bip39WordMap_exists by blast
  then have "validateMnemonic wl (Join ws '' '')"
    unfolding validateMnemonic_def Let_def f list_all_iff using n by auto
  with ws f n show "\<exists>phrase. GenerateMnemonic wl rnd entropyBits = Inr phrase
         \<and> length (Fields phrase) = nat (entropyBits div 32 * 3)
         \<and> length (Fields phrase) \<in> {12, 15, 18, 21, 24}
         \<and> set (Fields phrase) \<subseteq> set wl
         \<and> validateMnemonic wl phrase" by simp
next
  assume "entropyBits \<notin> {128, 160, 192, 224, 256}"
  then show "GenerateMnemonic wl rnd entropyBits = Inl ErrInvalidEntropy"
    by (rule GenerateMnemonic_invalid)
qed

lemma demo_wordlist_ok: "wordlist_ok demo_wordlist"
  by (auto simp: wordlist_ok_def demo_wordlist_def ascii_word_def IsSpace_def)

theorem GenerateMnemonic_entropy_witness:
  "wordlist_ok demo_wordlist
   \<and> (\<exists>phrase. GenerateMnemonic demo_wordlist demo_rand 128 = Inr phrase
         \<and> length (Fields phrase) = 12 \<and> validateMnemonic demo_wordlist phrase)
   \<and> GenerateMnemonic demo_wordlist demo_rand 100 = Inl ErrInvalidEntropy"
proof -
  have r: "\<forall>i < nat (128 div 32 * 3). \<exists>p. demo_rand i = Inr p" by (simp add: demo_rand_def)
  have e: "(128 :: int) \<in> {128, 160, 192, 224, 256}" "(100 :: int) \<notin> {128, 160, 192, 224, 256}"
    by simp_all
  from GenerateMnemonic_entropy [of demo_wordlist 128 demo_rand] demo_wordlist_ok r e(1)
  have "\<exists>phrase. GenerateMnemonic demo_wordlist demo_rand 128 = Inr phrase
         \<and> length (Fields phrase) = 12 \<and> validateMnemonic demo_wordlist phrase"
    by auto
  moreover from GenerateMnemonic_entropy [of demo_wordlist 100 demo_rand] e(2)
  have "GenerateMnemonic demo_wordlist demo_rand 100 = Inl ErrInvalidEntropy" by blast
  ultimately show ?thesis using demo_wordlist_ok by blast
qed


subsection \<open>Determinism of key derivation\<close>

lemma derivePrivateKey_seed:
  "seed_bytes m1 w1 = seed_bytes m2 w2 \<Longrightarrow> derivePrivateKey L m1 w1 path = derivePrivateKey L m2 w2 path"
  by (simp add: derivePrivateKey_def)

lemma derivePrivateKey_Inr: "\<exists>k. derivePrivateKey L m w path = Inr k"
  by (simp add: derivePrivateKey_def Let_def split: prod.splits)

lemma Derive_result_seed:
  assumes "seed_bytes m1 w1 = seed_bytes m2 w2" "isLocked w1 = isLocked w2"
  shows "Derive_result L now1 (w1, m1) index = Derive_result L now2 (w2, m2) index"
proof -
  obtain k where k: "derivePrivateKey L m1 w1 [0x8000002C, 0x8000003C, 0x80000000, 0, index] = Inr k"
    using derivePrivateKey_Inr by blast
  with assms(1) have k2: "derivePrivateKey L m2 w2 [0x8000002C, 0x8000003C, 0x80000000, 0, index] = Inr k"
    using derivePrivateKey_seed [of m1 w1 m2 w2] by simp
  show ?thesis
    using assms(2) k k2
    by (simp add: Derive_result_def Derive_def Let_def new_key_def new_account_def deref_account_def
        split: sum.splits prod.splits)
qed

lemma Derive_seed_bytes:
  "Derive L now (w, m) index = (r, (w', m')) \<Longrightarrow> seed_bytes m' w' = seed_bytes m w \<and> isLocked w' = isLocked w"
  by (auto simp: Derive_def Let_def new_key_def new_account_def seed_bytes_def
      split: sum.splits prod.splits if_splits option.splits)

lemma newWallet_seed_bytes:
  "newWallet gen m mn sd cfg = Inr (w, m') \<Longrightarrow> seed_bytes m' w = sd \<and> \<not> isLocked w"
  by (auto simp: newWallet_def new_bytes_def seed_bytes_def copy_slice_def make_bytes_def Let_def
      split: sum.splits)

lemma NewFromMnemonic_seed_bytes:
  "NewFromMnemonic L wl gen m mn cfg = Inr (w, m') \<Longrightarrow>
   seed_bytes m' w = generateSeedFromMnemonic L mn (Passphrase (case cfg of None \<Rightarrow> DefaultConfig | Some c \<Rightarrow> c))
   \<and> \<not> isLocked w"
  by (auto simp: NewFromMnemonic_def Let_def dest!: newWallet_seed_bytes split: if_splits)

lemma hd_derive_masterKey:
  "hd_masterKey w1 = hd_masterKey w2 \<Longrightarrow>
   hd_derivePrivateKey L w1 path = hd_derivePrivateKey L w2 path
   \<and> hd_derivePublicKey L w1 path = hd_derivePublicKey L w2 path
   \<and> hd_deriveAddress L w1 path = hd_deriveAddress L w2 path"
  by (simp add: hd_derivePrivateKey_def hd_derivePublicKey_def hd_deriveAddress_def)

lemma hd_Derive_masterKey: "hd_masterKey (snd (hd_Derive L w path pin)) = hd_masterKey w"
  by (simp add: hd_Derive_def Let_def split: sum.splits option.splits)

lemma hd_Unpin_masterKey: "hd_masterKey (snd (hd_Unpin L w account)) = hd_masterKey w"
  by (simp add: hd_Unpin_def split: option.splits)

lemma hd_NewFromMnemonic_masterKey:
  "hd_NewFromMnemonic L mn = Inr w \<Longrightarrow>
   \<exists>sd. NewSeedWithErrorChecking L mn [] = Inr sd \<and> hd_seed w = sd
      \<and> NewMaster L sd = Inr (hd_masterKey w)"
  by (auto simp: hd_NewFromMnemonic_def hd_NewSeedFromMnemonic_def hd_newWallet_def
      split: if_splits sum.splits)

lemma hd_NewFromSeed_masterKey:
  "hd_NewFromSeed L sd = Inr w \<Longrightarrow> hd_seed w = sd \<and> NewMaster L sd = Inr (hd_masterKey w)"
  by (auto simp: hd_NewFromSeed_def hd_newWallet_def split: if_splits sum.splits)

lemma validateMnemonic_Join:
  "wordlist_ok wl \<Longrightarrow> set ws \<subseteq> set wl \<Longrightarrow> length ws \<in> {12, 15, 18, 21, 24} \<Longrightarrow>
   validateMnemonic wl (Join ws '' '')"
proof -
  assume a: "wordlist_ok wl" "set ws \<subseteq> set wl" "length ws \<in> {12, 15, 18, 21, 24}"
  then have "\<forall>w \<in> set ws. ascii_word w" by (auto simp: wordlist_ok_def)
  then have f: "Fields (Join ws '' '') = ws" by (rule Fields_Join)
  have "\<forall>word \<in> set ws. bip39WordMap wl word \<noteq> None"
    using a(2) unfolding bip39WordMap_exists by blast
  then show ?thesis
    unfolding validateMnemonic_def Let_def f list_all_iff using a(3) by auto
qed

lemma demo_mnemonic_valid: "validateMnemonic demo_wordlist demo_mnemonic"
  unfolding demo_mnemonic_def
  by (rule validateMnemonic_Join [OF demo_wordlist_ok]) (auto simp: demo_wordlist_def)

lemma demo_NewFromMnemonic:
  "\<exists>s. NewFromMnemonic toy_stdlib demo_wordlist (Inr k) m demo_mnemonic None = Inr s \<and> masterKey (fst s) = k"
  by (simp add: NewFromMnemonic_def demo_mnemonic_valid length_generateSeedFromMnemonic SeedLength_def
      newWallet_def new_bytes_def Let_def)

text \<open>
  C1. Key derivation is a function of the seed and the path. In package \<open>wallet\<close>,
  \<open>derivePrivateKey\<close> gives the same key in any two states whose seed holds the same
  bytes, whatever \<open>masterKey\<close> and the other fields are; two wallets built from one
  mnemonic and configuration, with any two random master keys, derive the same account
  (address, path, private and public key) at every index, and so does a wallet before and
  after any call of \<open>Derive\<close>. In package \<open>hdwallet\<close>, the derived private key, public key
  and address depend on the wallet through \<open>masterKey\<close> only, which \<open>NewFromSeed\<close> and
  \<open>NewFromMnemonic\<close> compute from the seed and which \<open>Derive\<close> and \<open>Unpin\<close> leave alone.
\<close>

theorem derivation_deterministic:
  "(seed_bytes m1 w1 = seed_bytes m2 w2 \<longrightarrow>
      derivePrivateKey L m1 w1 path = derivePrivateKey L m2 w2 path)
   \<and> (NewFromMnemonic L wl gen1 m1 mn cfg = Inr s1 \<and> NewFromMnemonic L wl gen2 m2 mn cfg = Inr s2 \<longrightarrow>
        Derive_result L now1 s1 index = Derive_result L now2 s2 index)
   \<and> (Derive L now s index' = (r, s') \<longrightarrow>
        Derive_result L now1 s' index = Derive_result L now2 s index)
   \<and> (hd_masterKey hw1 = hd_masterKey hw2 \<longrightarrow>
        hd_derivePrivateKey E hw1 path = hd_derivePrivateKey E hw2 path
        \<and> hd_derivePublicKey E hw1 path = hd_derivePublicKey E hw2 path
        \<and> hd_deriveAddress E hw1 path = hd_deriveAddress E hw2 path)
   \<and> (hd_NewFromSeed E sd = Inr hw \<longrightarrow> NewMaster E sd = Inr (hd_masterKey hw))
   \<and> (hd_NewFromMnemonic E mn = Inr hw \<longrightarrow>
        (\<exists>sd. NewSeedWithErrorChecking E mn [] = Inr sd \<and> NewMaster E sd = Inr (hd_masterKey hw)))
   \<and> hd_masterKey (snd (hd_Derive E hw path pin)) = hd_masterKey hw
   \<and> hd_masterKey (snd (hd_Unpin E hw account)) = hd_masterKey hw"
proof (intro conjI impI)
  assume "seed_bytes m1 w1 = seed_bytes m2 w2"
  then show "derivePrivateKey L m1 w1 path = derivePrivateKey L m2 w2 path"
    by (rule derivePrivateKey_seed)
next
  assume a: "NewFromMnemonic L wl gen1 m1 mn cfg = Inr s1 \<and> NewFromMnemonic L wl gen2 m2 mn cfg = Inr s2"
  obtain w1' m1' w2' m2' where s: "s1 = (w1', m1')" "s2 = (w2', m2')" by (cases s1, cases s2) auto
  from a have "seed_bytes m1' w1' = seed_bytes m2' w2'" "isLocked w1' = isLocked w2'"
    unfolding s by (auto dest!: NewFromMnemonic_seed_bytes)
  then show "Derive_result L now1 s1 index = Derive_result L now2 s2 index"
    unfolding s by (rule Derive_result_seed)
next
  assume a: "Derive L now s index' = (r, s')"
  obtain w m w' m' where s: "s = (w, m)" "s' = (w', m')" by (cases s, cases s') auto
  from a have "seed_bytes m' w' = seed_bytes m w" "isLocked w' = isLocked w"
    unfolding s by (auto dest!: Derive_seed_bytes)
  then show "Derive_result L now1 s' index = Derive_result L now2 s index"
    unfolding s by (rule Derive_result_seed)
next
  assume a: "hd_masterKey hw1 = hd_masterKey hw2"
  from hd_derive_masterKey [OF a, of E path]
  show "hd_derivePrivateKey E hw1 path = hd_derivePrivateKey E hw2 path"
    "hd_derivePublicKey E hw1 path = hd_derivePublicKey E hw2 path"
    "hd_deriveAddress E hw1 path = hd_deriveAddress E hw2 path" by simp_all
next
  assume "hd_NewFromSeed E sd = Inr hw"
  then show "NewMaster E sd = Inr (hd_masterKey hw)" by (simp add: hd_NewFromSeed_masterKey)
next
  assume "hd_NewFromMnemonic E mn = Inr hw"
  then show "\<exists>sd. NewSeedWithErrorChecking E mn [] = Inr sd \<and> NewMaster E sd = Inr (hd_masterKey hw)"
    using hd_NewFromMnemonic_masterKey by blast
next
  show "hd_masterKey (snd (hd_Derive E hw path pin)) = hd_masterKey hw" by (rule hd_Derive_masterKey)
next
  show "hd_masterKey (snd (hd_Unpin E hw account)) = hd_masterKey hw" by (rule hd_Unpin_masterKey)
qed

theorem derivation_deterministic_witness:
  "\<exists>s1 s2. NewFromMnemonic toy_stdlib demo_wordlist (Inr (demo_key 5)) empty_memory demo_mnemonic None = Inr s1
     \<and> NewFromMnemonic toy_stdlib demo_wordlist (Inr (demo_key 8)) empty_memory demo_mnemonic None = Inr s2
     \<and> masterKey (fst s1) \<noteq> masterKey (fst s2)
     \<and> Derive_result toy_stdlib 100 s1 7 = Derive_result toy_stdlib 200 s2 7"
proof -
  obtain s1 where s1: "NewFromMnemonic toy_stdlib demo_wordlist (Inr (demo_key 5)) empty_memory demo_mnemonic None = Inr s1"
    "masterKey (fst s1) = demo_key 5" using demo_NewFromMnemonic by blast
  obtain s2 where s2: "NewFromMnemonic toy_stdlib demo_wordlist (Inr (demo_key 8)) empty_memory demo_mnemonic None = Inr s2"
    "masterKey (fst s2) = demo_key 8" using demo_NewFromMnemonic by blast
  have "Derive_result toy_stdlib 100 s1 7 = Derive_result toy_stdlib 200 s2 7"
    using derivation_deterministic [where L = toy_stdlib and wl = demo_wordlist and mn = demo_mnemonic
        and cfg = None and ?gen1.0 = "Inr (demo_key 5)" and ?gen2.0 = "Inr (demo_key 8)"
        and ?m1.0 = empty_memory and ?m2.0 = empty_memory and ?s1.0 = s1 and ?s2.0 = s2
        and ?now1.0 = 100 and ?now2.0 = 200 and index = 7] s1(1) s2(1)
    by blast
  moreover have "masterKey (fst s1) \<noteq> masterKey (fst s2)"
    unfolding s1(2) s2(2) by (simp add: demo_key_def)
  ultimately show ?thesis using s1(1) s2(1) by blast
qed



subsection \<open>Seeds that coincide\<close>

lemma Join_Cons: "Join (v # vs) sep = v @ concat (map (\<lambda>x. sep @ x) vs)"
  by (induction vs arbitrary: v) simp_all

lemma Join_append:
  "ws \<noteq> [] \<Longrightarrow> Join (ws @ vs) sep = Join ws sep @ concat (map (\<lambda>x. sep @ x) vs)"
  by (cases ws) (simp_all add: Join_Cons)

lemma demo_mnemonic15_split: "demo_mnemonic @ '' about about about'' = demo_mnemonic15 @ []"
proof -
  have n: "replicate 11 ''abandon'' @ [''about''] \<noteq> []" by simp
  have "demo_mnemonic15
      = Join ((replicate 11 ''abandon'' @ [''about'']) @ [''about'', ''about'', ''about'']) '' ''"
    by (simp add: demo_mnemonic15_def)
  also have "\<dots> = demo_mnemonic @ concat (map (\<lambda>x. '' '' @ x) [''about'', ''about'', ''about''])"
    unfolding demo_mnemonic_def by (rule Join_append [OF n])
  finally show ?thesis by simp
qed

lemma demo_mnemonic15_valid: "validateMnemonic demo_wordlist demo_mnemonic15"
  unfolding demo_mnemonic15_def
  by (rule validateMnemonic_Join [OF demo_wordlist_ok]) (auto simp: demo_wordlist_def)

lemma demo_NewFromMnemonic_passphrase:
  "validateMnemonic demo_wordlist mn \<Longrightarrow>
   \<exists>s. NewFromMnemonic toy_stdlib demo_wordlist (Inr k) m mn (Some \<lparr> Passphrase = p \<rparr>) = Inr s"
  by (simp add: NewFromMnemonic_def length_generateSeedFromMnemonic SeedLength_def
      newWallet_def new_bytes_def Let_def)

text \<open>
  C9. The seed depends only on the concatenation of mnemonic and passphrase: two pairs
  with equal concatenations give the same seed, the first 32 bytes being the SHA-256
  digest of the concatenation and the last 32 the digest of that digest; the seed is
  always 64 bytes long; the pairs ("ab", "c") and ("a", "bc") give one seed. Two wallets
  that \<open>NewFromMnemonic\<close> builds from pairs with equal concatenations hold the same seed
  bytes and derive the same account (address, private and public key) at every index.
\<close>

theorem generateSeedFromMnemonic_concat:
  "(m1 @ p1 = m2 @ p2 \<longrightarrow>
      generateSeedFromMnemonic L m1 p1 = generateSeedFromMnemonic L m2 p2)
   \<and> length (generateSeedFromMnemonic L m p) = 64
   \<and> generateSeedFromMnemonic L m p =
       digest_bytes (Sum256 L (bytes_of_string (m @ p))) @
       digest_bytes (Sum256 L (digest_bytes (Sum256 L (bytes_of_string (m @ p)))))
   \<and> generateSeedFromMnemonic L ''ab'' ''c'' = generateSeedFromMnemonic L ''a'' ''bc''
   \<and> (m1 @ p1 = m2 @ p2
        \<and> NewFromMnemonic L wl gen1 mem1 m1 (Some \<lparr> Passphrase = p1 \<rparr>) = Inr s1
        \<and> NewFromMnemonic L wl gen2 mem2 m2 (Some \<lparr> Passphrase = p2 \<rparr>) = Inr s2 \<longrightarrow>
        seed_bytes (snd s1) (fst s1) = seed_bytes (snd s2) (fst s2)
        \<and> Derive_result L now1 s1 index = Derive_result L now2 s2 index)"
proof -
  have "seed_bytes (snd s1) (fst s1) = seed_bytes (snd s2) (fst s2)
        \<and> Derive_result L now1 s1 index = Derive_result L now2 s2 index"
    if a: "m1 @ p1 = m2 @ p2"
      "NewFromMnemonic L wl gen1 mem1 m1 (Some \<lparr> Passphrase = p1 \<rparr>) = Inr s1"
      "NewFromMnemonic L wl gen2 mem2 m2 (Some \<lparr> Passphrase = p2 \<rparr>) = Inr s2"
  proof -
    obtain w1 n1 w2 n2 where s: "s1 = (w1, n1)" "s2 = (w2, n2)" by (cases s1, cases s2) auto
    from a(2,3) have "seed_bytes n1 w1 = generateSeedFromMnemonic L m1 p1"
      "seed_bytes n2 w2 = generateSeedFromMnemonic L m2 p2" "isLocked w1 = isLocked w2"
      unfolding s by (auto dest!: NewFromMnemonic_seed_bytes)
    with a(1) have e: "seed_bytes n1 w1 = seed_bytes n2 w2" "isLocked w1 = isLocked w2"
      by (simp_all add: generateSeedFromMnemonic_eq)
    from e Derive_result_seed [OF e, of L now1 index now2] show ?thesis unfolding s by simp
  qed
  then show ?thesis
    by (simp add: generateSeedFromMnemonic_eq length_digest_bytes)
qed

theorem generateSeedFromMnemonic_concat_witness:
  "demo_mnemonic @ '' about about about'' = demo_mnemonic15 @ []
   \<and> demo_mnemonic \<noteq> demo_mnemonic15
   \<and> generateSeedFromMnemonic toy_stdlib demo_mnemonic '' about about about''
       = generateSeedFromMnemonic toy_stdlib demo_mnemonic15 []
   \<and> (\<exists>s1 s2.
        NewFromMnemonic toy_stdlib demo_wordlist (Inr (demo_key 5)) empty_memory demo_mnemonic
            (Some \<lparr> Passphrase = '' about about about'' \<rparr>) = Inr s1
        \<and> NewFromMnemonic toy_stdlib demo_wordlist (Inr (demo_key 8)) empty_memory demo_mnemonic15
            (Some \<lparr> Passphrase = [] \<rparr>) = Inr s2
        \<and> Derive_result toy_stdlib 100 s1 0 = Derive_result toy_stdlib 200 s2 0)"
proof -
  note e = demo_mnemonic15_split
  obtain s1 where s1: "NewFromMnemonic toy_stdlib demo_wordlist (Inr (demo_key 5)) empty_memory demo_mnemonic
            (Some \<lparr> Passphrase = '' about about about'' \<rparr>) = Inr s1"
    using demo_NewFromMnemonic_passphrase [OF demo_mnemonic_valid] by blast
  obtain s2 where s2: "NewFromMnemonic toy_stdlib demo_wordlist (Inr (demo_key 8)) empty_memory demo_mnemonic15
            (Some \<lparr> Passphrase = [] \<rparr>) = Inr s2"
    using demo_NewFromMnemonic_passphrase [OF demo_mnemonic15_valid] by blast
  note t = generateSeedFromMnemonic_concat [where ?m1.0 = demo_mnemonic and ?p1.0 = "'' about about about''"
      and ?m2.0 = demo_mnemonic15 and ?p2.0 = "[]" and L = toy_stdlib and wl = demo_wordlist
      and ?gen1.0 = "Inr (demo_key 5)" and ?gen2.0 = "Inr (demo_key 8)" and ?mem1.0 = empty_memory
      and ?mem2.0 = empty_memory and ?s1.0 = s1 and ?s2.0 = s2 and ?now1.0 = 100 and ?now2.0 = 200
      and index = 0]
  from t e have 1: "generateSeedFromMnemonic toy_stdlib demo_mnemonic '' about about about''
       = generateSeedFromMnemonic toy_stdlib demo_mnemonic15 []" by blast
  from t e s1 s2 have 2: "Derive_result toy_stdlib 100 s1 0 = Derive_result toy_stdlib 200 s2 0" by blast
  from arg_cong [OF e, of length] have "length demo_mnemonic \<noteq> length demo_mnemonic15" by simp
  then have 3: "demo_mnemonic \<noteq> demo_mnemonic15" by auto
  from e 1 2 3 s1 s2 show ?thesis by blast
qed


subsection \<open>Close\<close>

lemma secureClearPrivateKey_idem:
  "secureClearPrivateKey (secureClearPrivateKey k) = secureClearPrivateKey k"
  by (simp add: secureClearPrivateKey_def split: option.splits)

lemma secureClearPrivateKey_D:
  "PrivateKey_D (secureClearPrivateKey k) = map_option (\<lambda>_. 0) (PrivateKey_D k)"
  by (simp add: secureClearPrivateKey_def split: option.splits)

lemma clear_all_snoc: "clear_all m (xs @ [(a, r)]) = clear_account (clear_all m xs) r"
  by (simp add: clear_all_def)

lemma Account_PrivateKey_None: "PrivateKey a = None \<Longrightarrow> a\<lparr> PrivateKey := None \<rparr> = a"
  by (cases a) simp

lemma clear_account_clear_refs: "clear_account (clear_refs m R) r = clear_refs m (insert r R)"
proof (cases "r \<in> R")
  case True
  then have "insert r R = R" by auto
  with True show ?thesis by (simp add: clear_account_def clear_refs_def Let_def)
next
  case False
  show ?thesis
  proof (cases "PrivateKey (account_objects m r)")
    case None
    with False show ?thesis
      by (auto simp: clear_account_def clear_refs_def Let_def fun_eq_iff Account_PrivateKey_None
          intro!: memory.equality)
  next
    case (Some k)
    with False show ?thesis
      by (auto simp: clear_account_def clear_refs_def Let_def fun_eq_iff secureClearPrivateKey_idem
          intro!: memory.equality)
  qed
qed

lemma clear_refs_empty: "clear_refs m {} = m"
  by (simp add: clear_refs_def)

lemma clear_all_eq: "clear_all m xs = clear_refs m (snd ` set xs)"
proof (induction xs rule: rev_induct)
  case Nil
  then show ?case by (simp add: clear_all_def clear_refs_empty)
next
  case (snoc x xs)
  obtain a r where x: "x = (a, r)" by (cases x)
  show ?case
    unfolding x clear_all_snoc snoc.IH clear_account_clear_refs by simp
qed

lemma clear_all_order: "set xs = set ys \<Longrightarrow> clear_all m xs = clear_all m ys"
  by (simp add: clear_all_eq)

lemma clear_refs_noop:
  "\<forall>r \<in> R. PrivateKey (account_objects m r) = None \<Longrightarrow> clear_refs m R = m"
  by (auto simp: clear_refs_def fun_eq_iff Account_PrivateKey_None intro!: memory.equality)

lemma clear_refs_idem: "clear_refs (clear_refs m R) R = clear_refs m R"
  by (rule clear_refs_noop) (simp add: clear_refs_def)

lemma cleanup_eq:
  "cleanup (w, m) =
     (w\<lparr> seed := None, finalizer := False \<rparr>,
      clear_all (case seed w of None \<Rightarrow> m
                 | Some r \<Rightarrow> m\<lparr> byte_arrays := (byte_arrays m)(r := secureClear (byte_arrays m r)) \<rparr>)
        (accounts w))"
  by (cases "seed w") (simp_all add: cleanup_def clear_all_def Let_def)

lemma cleanup_idem: "cleanup (cleanup s) = cleanup s"
proof -
  obtain w m where s: "s = (w, m)" by (cases s)
  define m1 where "m1 = (case seed w of None \<Rightarrow> m
                 | Some r \<Rightarrow> m\<lparr> byte_arrays := (byte_arrays m)(r := secureClear (byte_arrays m r)) \<rparr>)"
  have "clear_all (clear_all m1 (accounts w)) (accounts w) = clear_all m1 (accounts w)"
    unfolding clear_all_eq by (rule clear_refs_idem)
  then show ?thesis
    unfolding s cleanup_eq m1_def [symmetric] by simp
qed

lemma cleanup_seed:
  "cleanup (w, m) = (w', m') \<Longrightarrow>
   seed w' = None \<and> (\<forall>r. seed w = Some r \<longrightarrow> byte_arrays m' r = replicate (length (byte_arrays m r)) 0)"
  unfolding cleanup_eq clear_all_eq clear_refs_def
  by (auto simp: secureClear_def map_replicate_const split: option.splits)

lemma cleanup_keys:
  assumes "cleanup (w, m) = (w', m')" "(a, r) \<in> set (accounts w)"
  shows "PrivateKey (account_objects m' r) = None"
    and "PrivateKey (account_objects m r) = Some k \<Longrightarrow>
         PrivateKey_D (key_objects m' k) = map_option (\<lambda>_. 0) (PrivateKey_D (key_objects m k))"
proof -
  have r: "r \<in> snd ` set (accounts w)" using assms(2) by force
  from assms(1) have m': "m' = clear_all (case seed w of None \<Rightarrow> m
                 | Some r \<Rightarrow> m\<lparr> byte_arrays := (byte_arrays m)(r := secureClear (byte_arrays m r)) \<rparr>)
        (accounts w)" unfolding cleanup_eq by simp
  show "PrivateKey (account_objects m' r) = None"
    unfolding m' clear_all_eq clear_refs_def using r by (simp split: option.splits)
  show "PrivateKey_D (key_objects m' k) = map_option (\<lambda>_. 0) (PrivateKey_D (key_objects m k))"
    if "PrivateKey (account_objects m r) = Some k"
    unfolding m' clear_all_eq clear_refs_def using r that
    by (cases "seed w") (auto simp: secureClearPrivateKey_D)
qed

text \<open>
  C2, as the code has it. \<open>Close\<close> of package \<open>wallet\<close> returns no error; after it the
  seed slice is nil and the array it covered holds zeros, every stored account has lost
  its key pointer and the key it pointed to has \<open>D = 0\<close>; a second \<open>Close\<close> finds nothing
  to clear and leaves the wallet and the store as they are. \<open>Close\<close> of package
  \<open>hdwallet\<close> returns no error and changes nothing.
\<close>

theorem Close_zeroes_and_idempotent:
  "(case Close (w, m) of (err, (w', m')) \<Rightarrow>
      err = None \<and> seed w' = None
      \<and> (\<forall>r. seed w = Some r \<longrightarrow> byte_arrays m' r = replicate (length (byte_arrays m r)) 0)
      \<and> (\<forall>(a, r) \<in> set (accounts w).
            PrivateKey (account_objects m' r) = None
            \<and> (\<forall>k. PrivateKey (account_objects m r) = Some k \<longrightarrow>
                  PrivateKey_D (key_objects m' k) = map_option (\<lambda>_. 0) (PrivateKey_D (key_objects m k))))
      \<and> Close (w', m') = (None, (w', m')))
   \<and> hd_Close hw = (None, hw)"
proof -
  obtain w' m' where c: "cleanup (w, m) = (w', m')" by (cases "cleanup (w, m)")
  have "cleanup (w', m') = (w', m')" using cleanup_idem [of "(w, m)"] unfolding c .
  moreover note cleanup_seed [OF c] cleanup_keys [OF c]
  ultimately show ?thesis
    unfolding Close_def c hd_Close_def by auto
qed

theorem Close_zeroes_and_idempotent_witness:
  "seed (fst demo_state) = Some 0
   \<and> ([1, 2], 2) \<in> set (accounts (fst demo_state))
   \<and> PrivateKey (account_objects (snd demo_state) 2) = Some 1
   \<and> PrivateKey_D (key_objects (snd demo_state) 1) = Some 77
   \<and> byte_arrays (snd (snd (Close demo_state))) 0 = [0, 0, 0]
   \<and> PrivateKey (account_objects (snd (snd (Close demo_state))) 2) = None
   \<and> PrivateKey_D (key_objects (snd (snd (Close demo_state))) 1) = Some 0
   \<and> Close (snd (Close demo_state)) = Close demo_state"
proof -
  obtain w m where s: "demo_state = (w, m)" by (cases demo_state)
  obtain err w' m' where c: "Close (w, m) = (err, (w', m'))" by (cases "Close (w, m)") auto
  have a: "seed w = Some 0" "([1, 2], 2) \<in> set (accounts w)"
    "PrivateKey (account_objects m 2) = Some 1" "PrivateKey_D (key_objects m 1) = Some 77"
    "length (byte_arrays m 0) = 3"
    using s by (auto simp: demo_state_def demo_key_def empty_memory_def)
  note t = Close_zeroes_and_idempotent [of w m demo_hd_wallet, unfolded c prod.case]
  from t a(1) have "byte_arrays m' 0 = replicate (length (byte_arrays m 0)) 0" by blast
  with a(5) have b: "byte_arrays m' 0 = [0, 0, 0]" by (simp add: numeral_3_eq_3)
  from t have "\<forall>(a, r) \<in> set (accounts w).
            PrivateKey (account_objects m' r) = None
            \<and> (\<forall>k. PrivateKey (account_objects m r) = Some k \<longrightarrow>
                  PrivateKey_D (key_objects m' k) = map_option (\<lambda>_. 0) (PrivateKey_D (key_objects m k)))"
    by blast
  from bspec [OF this a(2)] a(3,4)
  have k: "PrivateKey (account_objects m' 2) = None" "PrivateKey_D (key_objects m' 1) = Some 0"
    by simp_all
  from t have i: "Close (w', m') = (None, (w', m'))" "err = None" by blast+
  from a b k i show ?thesis unfolding s c by simp
qed

text \<open>
  C2 as stated fails for \<open>Close\<close> of package \<open>hdwallet\<close>: the seed of the wallet is what
  it was before the call.
\<close>

theorem hd_Close_keeps_seed:
  "\<not> (hd_seed (snd (hd_Close demo_hd_wallet)) = replicate (length (hd_seed demo_hd_wallet)) 0)"
  by (simp add: hd_Close_def demo_hd_wallet_def)



subsection \<open>The account registry\<close>

lemma hd_Derive_fail:
  "hd_deriveAddress L w path = Inl err \<Longrightarrow> hd_Derive L w path pin = (Inl err, w)"
  by (simp add: hd_Derive_def)

lemma hd_Derive_unpinned:
  "hd_deriveAddress L w path = Inr address \<Longrightarrow>
   hd_Derive L w path False =
     (Inr \<lparr> hd_Address = address, hd_URL = \<lparr> URL_Scheme = [], URL_Path = DerivationPath_String L path \<rparr> \<rparr>, w)"
  by (simp add: hd_Derive_def)

lemma hd_Derive_pin_new:
  "hd_deriveAddress L w path = Inr address \<Longrightarrow> hd_paths w address = None \<Longrightarrow>
   hd_Derive L w path True =
     (Inr \<lparr> hd_Address = address, hd_URL = \<lparr> URL_Scheme = [], URL_Path = DerivationPath_String L path \<rparr> \<rparr>,
      w\<lparr> hd_accounts := hd_accounts w @
            [\<lparr> hd_Address = address, hd_URL = \<lparr> URL_Scheme = [], URL_Path = DerivationPath_String L path \<rparr> \<rparr>],
         hd_paths := (hd_paths w)(address \<mapsto> path) \<rparr>)"
  by (simp add: hd_Derive_def Let_def)

lemma hd_Derive_pin_old:
  "hd_deriveAddress L w path = Inr address \<Longrightarrow> hd_paths w address = Some p \<Longrightarrow>
   hd_Derive L w path True =
     (Inr \<lparr> hd_Address = address, hd_URL = \<lparr> URL_Scheme = [], URL_Path = DerivationPath_String L path \<rparr> \<rparr>, w)"
  by (simp add: hd_Derive_def)

lemma hd_deriveAddress_Derive:
  "hd_deriveAddress L (snd (hd_Derive L w path pin)) p = hd_deriveAddress L w p"
  using hd_Derive_masterKey [of L w path pin] hd_derive_masterKey by blast

lemma hd_Derive_pinned:
  "hd_deriveAddress L w path = Inr address \<Longrightarrow>
   hd_paths (snd (hd_Derive L w path True)) address \<noteq> None"
  by (cases "hd_paths w address") (simp_all add: hd_Derive_pin_new hd_Derive_pin_old)

lemma hd_Derive_registry_ok:
  "registry_ok w \<Longrightarrow> registry_ok (snd (hd_Derive L w path pin))"
  by (auto simp: hd_Derive_def registry_ok_def Let_def split: sum.splits option.splits)

lemma hd_newWallet_registry_ok: "hd_newWallet L sd = Inr w \<Longrightarrow> registry_ok w"
  by (auto simp: hd_newWallet_def registry_ok_def split: sum.splits)

lemma distinct_map_filter_length:
  "distinct (map f xs) \<Longrightarrow> length (filter (\<lambda>a. f a = y) xs) = (if y \<in> f ` set xs then 1 else 0)"
  by (induction xs) auto

lemma registry_ok_count:
  "registry_ok w \<Longrightarrow> hd_paths w address \<noteq> None \<Longrightarrow>
   length (filter (\<lambda>a. hd_Address a = address) (hd_accounts w)) = 1"
proof -
  assume a: "registry_ok w" "hd_paths w address \<noteq> None"
  then have "address \<in> hd_Address ` set (hd_accounts w)" by (auto simp: registry_ok_def)
  moreover from a have "distinct (map hd_Address (hd_accounts w))" by (simp add: registry_ok_def)
  ultimately show ?thesis by (simp add: distinct_map_filter_length)
qed

lemma hd_Derive_pin_fixed:
  "hd_deriveAddress L w path = Inr address \<Longrightarrow> hd_paths w address \<noteq> None \<Longrightarrow>
   hd_Derive L w path True =
     (Inr \<lparr> hd_Address = address, hd_URL = \<lparr> URL_Scheme = [], URL_Path = DerivationPath_String L path \<rparr> \<rparr>, w)"
  by (auto simp: hd_Derive_pin_old)

lemma hd_Derive_pin_repeat:
  assumes a: "hd_deriveAddress L w path = Inr address"
  shows "((\<lambda>w. snd (hd_Derive L w path True)) ^^ Suc n) w = snd (hd_Derive L w path True)"
proof (induction n)
  case 0
  then show ?case by simp
next
  case (Suc n)
  let ?w1 = "snd (hd_Derive L w path True)"
  have "hd_deriveAddress L ?w1 path = Inr address" using a by (simp add: hd_deriveAddress_Derive)
  moreover have "hd_paths ?w1 address \<noteq> None" using a by (rule hd_Derive_pinned)
  ultimately have "snd (hd_Derive L ?w1 path True) = ?w1" by (simp add: hd_Derive_pin_fixed)
  with Suc show ?case by simp
qed

lemma hd_Derive_fst:
  "hd_deriveAddress L w path = Inr address \<Longrightarrow>
   fst (hd_Derive L w path pin) =
     Inr \<lparr> hd_Address = address, hd_URL = \<lparr> URL_Scheme = [], URL_Path = DerivationPath_String L path \<rparr> \<rparr>"
  by (simp add: hd_Derive_def Let_def split: option.splits)

lemma hd_deriveAddress_funpow:
  "hd_deriveAddress L (((\<lambda>w. snd (hd_Derive L w path pin)) ^^ n) w) p = hd_deriveAddress L w p"
  by (induction n) (simp_all add: hd_deriveAddress_Derive)

lemma demo_hd_wallet_ok: "registry_ok demo_hd_wallet"
  by (simp add: registry_ok_def demo_hd_wallet_def)

lemma demo_deriveAddress:
  "\<exists>privateKey. hd_derivePrivateKey toy_ethlib demo_hd_wallet demo_path = Inr privateKey
     \<and> 0 < privateKey \<and> privateKey \<le> 65521
     \<and> hd_deriveAddress toy_ethlib demo_hd_wallet demo_path = Inr (big_endian 20 (3 * privateKey))"
  by (simp add: hd_deriveAddress_def hd_derivePublicKey_def hd_derivePrivateKey_def toy_ethlib_def
      demo_path_def demo_hd_wallet_def less_eq_Suc_le [symmetric])

lemma demo_pinned:
  "\<exists>privateKey address.
     hd_derivePrivateKey toy_ethlib demo_pinned_wallet demo_path = Inr privateKey
     \<and> 0 < privateKey \<and> privateKey \<le> 65521
     \<and> address = big_endian 20 (3 * privateKey)
     \<and> hd_deriveAddress toy_ethlib demo_hd_wallet demo_path = Inr address
     \<and> demo_account = \<lparr> hd_Address = address,
          hd_URL = \<lparr> URL_Scheme = [], URL_Path = formatDerivationPath demo_path \<rparr> \<rparr>
     \<and> hd_paths demo_pinned_wallet address = Some demo_path
     \<and> hd_accounts demo_pinned_wallet = [demo_account]
     \<and> registry_ok demo_pinned_wallet"
proof -
  obtain privateKey where k: "hd_derivePrivateKey toy_ethlib demo_hd_wallet demo_path = Inr privateKey"
    "0 < privateKey" "privateKey \<le> 65521"
    "hd_deriveAddress toy_ethlib demo_hd_wallet demo_path = Inr (big_endian 20 (3 * privateKey))"
    using demo_deriveAddress by blast
  have n: "hd_paths demo_hd_wallet (big_endian 20 (3 * privateKey)) = None"
    by (simp add: demo_hd_wallet_def)
  note d = hd_Derive_pin_new [OF k(4) n]
  have m: "hd_masterKey demo_pinned_wallet = hd_masterKey demo_hd_wallet"
    unfolding demo_pinned_wallet_def by (rule hd_Derive_masterKey)
  have "hd_derivePrivateKey toy_ethlib demo_pinned_wallet demo_path = Inr privateKey"
    using hd_derive_masterKey [OF m, of toy_ethlib demo_path] k(1) by simp
  moreover have "registry_ok demo_pinned_wallet"
    unfolding demo_pinned_wallet_def by (rule hd_Derive_registry_ok [OF demo_hd_wallet_ok])
  ultimately show ?thesis
    using k d by (simp add: demo_pinned_wallet_def demo_account_def toy_ethlib_def demo_hd_wallet_def)
qed

text \<open>
  C5. When the address of \<open>path\<close> can be derived, every call of \<open>Derive(path, true)\<close>,
  the first and each later one, returns the account of that address and path; the wallet
  after the first call has the address in \<open>paths\<close>, and every further call leaves it as it
  is. The first call appends the account and stores the path when the address was not
  registered, and changes nothing when it was. In a well-formed registry the accounts
  list then holds exactly one entry for the address, and the registry is still well
  formed.
\<close>

theorem Derive_pin_idempotent:
  "hd_deriveAddress L w path = Inr address \<longrightarrow>
     (let account = \<lparr> hd_Address = address,
                       hd_URL = \<lparr> URL_Scheme = [], URL_Path = DerivationPath_String L path \<rparr> \<rparr>;
          pin_again = (\<lambda>w. snd (hd_Derive L w path True));
          w1 = pin_again w in
      (\<forall>n. fst (hd_Derive L ((pin_again ^^ n) w) path True) = Inr account)
      \<and> (\<forall>n. (pin_again ^^ Suc n) w = w1)
      \<and> hd_paths w1 address \<noteq> None
      \<and> (hd_paths w address = None \<longrightarrow>
            hd_accounts w1 = hd_accounts w @ [account] \<and> hd_paths w1 = (hd_paths w)(address \<mapsto> path))
      \<and> (hd_paths w address \<noteq> None \<longrightarrow> w1 = w)
      \<and> (registry_ok w \<longrightarrow>
            registry_ok w1
            \<and> length (filter (\<lambda>a. hd_Address a = address) (hd_accounts w1)) = 1))"
proof
  assume a: "hd_deriveAddress L w path = Inr address"
  let ?account = "\<lparr> hd_Address = address,
                     hd_URL = \<lparr> URL_Scheme = [], URL_Path = DerivationPath_String L path \<rparr> \<rparr>"
  let ?pin = "\<lambda>w. snd (hd_Derive L w path True)"
  have 1: "\<forall>n. fst (hd_Derive L ((?pin ^^ n) w) path True) = Inr ?account"
    using a by (simp add: hd_Derive_fst hd_deriveAddress_funpow)
  have 2: "\<forall>n. (?pin ^^ Suc n) w = ?pin w"
    using hd_Derive_pin_repeat [OF a] by blast
  have 3: "hd_paths (?pin w) address \<noteq> None" using a by (rule hd_Derive_pinned)
  have 4: "hd_paths w address = None \<longrightarrow>
      hd_accounts (?pin w) = hd_accounts w @ [?account] \<and> hd_paths (?pin w) = (hd_paths w)(address \<mapsto> path)"
    using a by (simp add: hd_Derive_pin_new)
  have 5: "hd_paths w address \<noteq> None \<longrightarrow> ?pin w = w"
    using a by (simp add: hd_Derive_pin_fixed)
  have 6: "registry_ok w \<longrightarrow> registry_ok (?pin w)
      \<and> length (filter (\<lambda>a. hd_Address a = address) (hd_accounts (?pin w))) = 1"
    using 3 by (simp add: hd_Derive_registry_ok registry_ok_count)
  from 1 2 3 4 5 6 show "let account = ?account; pin_again = ?pin; w1 = pin_again w in
      (\<forall>n. fst (hd_Derive L ((pin_again ^^ n) w) path True) = Inr account)
      \<and> (\<forall>n. (pin_again ^^ Suc n) w = w1)
      \<and> hd_paths w1 address \<noteq> None
      \<and> (hd_paths w address = None \<longrightarrow>
            hd_accounts w1 = hd_accounts w @ [account] \<and> hd_paths w1 = (hd_paths w)(address \<mapsto> path))
      \<and> (hd_paths w address \<noteq> None \<longrightarrow> w1 = w)
      \<and> (registry_ok w \<longrightarrow>
            registry_ok w1
            \<and> length (filter (\<lambda>a. hd_Address a = address) (hd_accounts w1)) = 1)"
    unfolding Let_def by blast
qed

theorem Derive_pin_idempotent_witness:
  "registry_ok demo_hd_wallet
   \<and> hd_deriveAddress toy_ethlib demo_hd_wallet demo_path = Inr (hd_Address demo_account)
   \<and> fst (hd_Derive toy_ethlib demo_hd_wallet demo_path True) = Inr demo_account
   \<and> fst (hd_Derive toy_ethlib demo_pinned_wallet demo_path True) = Inr demo_account
   \<and> snd (hd_Derive toy_ethlib demo_pinned_wallet demo_path True) = demo_pinned_wallet
   \<and> hd_accounts demo_pinned_wallet = [demo_account]
   \<and> length (filter (\<lambda>a. hd_Address a = hd_Address demo_account) (hd_accounts demo_pinned_wallet)) = 1"
proof -
  obtain privateKey address where p:
    "address = big_endian 20 (3 * privateKey)"
    "hd_deriveAddress toy_ethlib demo_hd_wallet demo_path = Inr address"
    "demo_account = \<lparr> hd_Address = address,
          hd_URL = \<lparr> URL_Scheme = [], URL_Path = formatDerivationPath demo_path \<rparr> \<rparr>"
    "hd_accounts demo_pinned_wallet = [demo_account]"
    using demo_pinned by blast
  have a: "hd_Address demo_account = address" unfolding p(3) by simp
  have ds: "DerivationPath_String toy_ethlib demo_path = formatDerivationPath demo_path"
    by (simp add: toy_ethlib_def)
  note t = Derive_pin_idempotent [of toy_ethlib demo_hd_wallet demo_path address,
      unfolded Let_def ds p(3) [symmetric] demo_pinned_wallet_def [symmetric], rule_format, OF p(2)]
  from t have 1: "fst (hd_Derive toy_ethlib (((\<lambda>w. snd (hd_Derive toy_ethlib w demo_path True)) ^^ 0) demo_hd_wallet)
        demo_path True) = Inr demo_account" by blast
  from t have 2: "fst (hd_Derive toy_ethlib (((\<lambda>w. snd (hd_Derive toy_ethlib w demo_path True)) ^^ 1) demo_hd_wallet)
        demo_path True) = Inr demo_account" by blast
  from t have 3: "((\<lambda>w. snd (hd_Derive toy_ethlib w demo_path True)) ^^ Suc 1) demo_hd_wallet = demo_pinned_wallet"
    by blast
  from t demo_hd_wallet_ok
  have 4: "length (filter (\<lambda>a. hd_Address a = address) (hd_accounts demo_pinned_wallet)) = 1" by blast
  from 1 2 3 4 p(2,4) a demo_hd_wallet_ok show ?thesis
    by (simp add: demo_pinned_wallet_def)
qed


subsection \<open>Hexadecimal encoding\<close>

lemma less_16_cases:
  "n < (16 :: nat) \<Longrightarrow> n \<in> {0, 1, 2, 3, 4, 5, 6, 7, 8, 9, 10, 11, 12, 13, 14, 15}"
  by simp arith

lemma fromHexChar_hexdigit: "n < 16 \<Longrightarrow> fromHexChar (hexdigit n) = Some n"
  by (drule less_16_cases) (auto simp: fromHexChar_def hexdigit_def)

lemma hexdigit_zero: "n < 16 \<Longrightarrow> hexdigit n = CHR ''0'' \<longleftrightarrow> n = 0"
  by (drule less_16_cases) (auto simp: hexdigit_def)

lemma hex_EncodeToString_Cons:
  "hex_EncodeToString (b # bs) =
     hexdigit (unat b div 16) # hexdigit (unat b mod 16) # hex_EncodeToString bs"
  by (simp add: hex_EncodeToString_def)

lemma length_hex_EncodeToString: "length (hex_EncodeToString bs) = 2 * length bs"
  by (induction bs) (simp_all add: hex_EncodeToString_Cons, simp add: hex_EncodeToString_def)

lemma unat_byte_div_16: "unat (b :: byte) div 16 < 16"
proof -
  have "unat b < 2 ^ LENGTH(8)" by (rule unsigned_less)
  then have "unat b < 256" by simp
  then show ?thesis by simp
qed

lemma byte_of_nibbles: "of_nat (unat (b :: byte) div 16 * 16 + unat b mod 16) = b"
  by simp

lemma hex_DecodeString_EncodeToString: "hex_DecodeString (hex_EncodeToString bs) = Some bs"
proof (induction bs)
  case Nil
  then show ?case by (simp add: hex_EncodeToString_def)
next
  case (Cons b bs)
  then show ?case
    by (simp add: hex_EncodeToString_Cons fromHexChar_hexdigit unat_byte_div_16 byte_of_nibbles)
qed

lemma inj_hex_EncodeToString: "inj hex_EncodeToString"
  by (rule inj_on_inverseI [where g = "\<lambda>s. the (hex_DecodeString s)"])
     (simp add: hex_DecodeString_EncodeToString)

lemma inj_hexutil_Encode: "inj hexutil_Encode"
  using inj_hex_EncodeToString by (auto simp: inj_def hexutil_Encode_def)

lemma byte_zero_nibbles: "(b :: byte) = 0 \<longleftrightarrow> unat b div 16 = 0 \<and> unat b mod 16 = 0"
proof
  assume "unat b div 16 = 0 \<and> unat b mod 16 = 0"
  then have "unat b = 0" by presburger
  then show "b = 0" by (simp add: unat_eq_zero)
qed simp


subsection \<open>Unpin\<close>

lemma Unpin_loop_None:
  "Unpin_loop L xs i account = None \<longleftrightarrow>
   (\<forall>acct \<in> set xs. Address_Hex L (hd_Address acct) \<noteq> Address_Hex L (hd_Address account))"
  by (induction xs arbitrary: i) auto

lemma Unpin_loop_Some:
  "Unpin_loop L xs i account = Some j \<Longrightarrow>
   i \<le> j \<and> j - i < length xs
   \<and> Address_Hex L (hd_Address (xs ! (j - i))) = Address_Hex L (hd_Address account)
   \<and> (\<forall>k < j - i. Address_Hex L (hd_Address (xs ! k)) \<noteq> Address_Hex L (hd_Address account))"
proof (induction xs arbitrary: i)
  case Nil
  then show ?case by simp
next
  case (Cons acct xs)
  show ?case
  proof (cases "Address_Hex L (hd_Address acct) = Address_Hex L (hd_Address account)")
    case True
    with Cons.prems show ?thesis by simp
  next
    case False
    with Cons.prems have "Unpin_loop L xs (Suc i) account = Some j" by simp
    from Cons.IH [OF this] have ih: "Suc i \<le> j" "j - Suc i < length xs"
      "Address_Hex L (hd_Address (xs ! (j - Suc i))) = Address_Hex L (hd_Address account)"
      "\<forall>k < j - Suc i. Address_Hex L (hd_Address (xs ! k)) \<noteq> Address_Hex L (hd_Address account)"
      by simp_all
    from ih(1) have d: "j - i = Suc (j - Suc i)" by arith
    from ih False show ?thesis
      unfolding d by (auto simp: less_Suc_eq_0_disj)
  qed
qed

lemma distinct_remove_nth:
  "distinct (map f xs) \<Longrightarrow> i < length xs \<Longrightarrow>
   take i xs @ drop (Suc i) xs = filter (\<lambda>a. f a \<noteq> f (xs ! i)) xs"
proof (induction xs arbitrary: i)
  case Nil
  then show ?case by simp
next
  case (Cons x xs)
  show ?case
  proof (cases i)
    case 0
    with Cons.prems have "f x \<notin> f ` set xs" by simp
    then have "\<forall>a \<in> set xs. f a \<noteq> f x" by (metis imageI)
    then have "filter (\<lambda>a. f a \<noteq> f x) xs = xs" by (simp add: filter_id_conv)
    with 0 show ?thesis by simp
  next
    case (Suc n)
    with Cons.prems have n: "n < length xs" "distinct (map f xs)" by simp_all
    from Cons.prems Suc have "f x \<noteq> f (xs ! n)" by (metis distinct.simps(2) image_eqI list.simps(9) n(1) nth_mem set_map)
    with Cons.IH [OF n(2,1)] Suc show ?thesis by simp
  qed
qed

lemma hd_Unpin_fail:
  "\<forall>acct \<in> set (hd_accounts w). Address_Hex L (hd_Address acct) \<noteq> Address_Hex L (hd_Address account) \<Longrightarrow>
   hd_Unpin L w account = (Some (ErrorString ''Account not found.''), w)"
  using Unpin_loop_None [of L "hd_accounts w" 0 account] by (simp add: hd_Unpin_def)

lemma hd_Unpin_ok:
  assumes inj: "inj (Address_Hex L)" and ok: "registry_ok w"
    and pinned: "hd_paths w (hd_Address account) \<noteq> None"
  shows "hd_Unpin L w account =
     (None, w\<lparr> hd_accounts := filter (\<lambda>a. hd_Address a \<noteq> hd_Address account) (hd_accounts w),
               hd_paths := (hd_paths w)(hd_Address account := None) \<rparr>)"
proof -
  from ok pinned have "hd_Address account \<in> hd_Address ` set (hd_accounts w)"
    by (auto simp: registry_ok_def)
  then have "Unpin_loop L (hd_accounts w) 0 account \<noteq> None"
    unfolding Unpin_loop_None by auto
  then obtain i where i: "Unpin_loop L (hd_accounts w) 0 account = Some i" by auto
  from Unpin_loop_Some [OF i] have lt: "i < length (hd_accounts w)"
    and "Address_Hex L (hd_Address (hd_accounts w ! i)) = Address_Hex L (hd_Address account)"
    by simp_all
  with inj have eq: "hd_Address (hd_accounts w ! i) = hd_Address account" by (simp add: inj_eq)
  from ok have "distinct (map hd_Address (hd_accounts w))" by (simp add: registry_ok_def)
  from distinct_remove_nth [OF this lt] eq
  have "take i (hd_accounts w) @ drop (i + 1) (hd_accounts w) =
        filter (\<lambda>a. hd_Address a \<noteq> hd_Address account) (hd_accounts w)" by simp
  with i show ?thesis by (simp add: hd_Unpin_def)
qed

lemma hd_Unpin_registry_ok:
  assumes inj: "inj (Address_Hex L)" and ok: "registry_ok w"
  shows "registry_ok (snd (hd_Unpin L w account))"
proof (cases "hd_paths w (hd_Address account)")
  case None
  with ok have "hd_Address account \<notin> hd_Address ` set (hd_accounts w)"
    by (auto simp: registry_ok_def)
  then have "\<forall>acct \<in> set (hd_accounts w). hd_Address acct \<noteq> hd_Address account"
    by (metis imageI)
  with inj have "\<forall>acct \<in> set (hd_accounts w).
      Address_Hex L (hd_Address acct) \<noteq> Address_Hex L (hd_Address account)"
    by (simp add: inj_eq)
  from hd_Unpin_fail [OF this] ok show ?thesis by simp
next
  case (Some p)
  then have "hd_paths w (hd_Address account) \<noteq> None" by simp
  from hd_Unpin_ok [OF inj ok this] ok show ?thesis
    by (auto simp: registry_ok_def distinct_map_filter)
qed

text \<open>
  C6. With \<open>Address.String\<close> injective (it prints the bytes of the address) and a
  well-formed registry: \<open>Unpin\<close> succeeds exactly when \<open>Contains\<close> holds of the account;
  when it does not, \<open>Unpin\<close> returns the error "Account not found." and leaves the wallet
  as it is; when it does, \<open>Unpin\<close> removes the account of that address from the list and
  the address from \<open>paths\<close>, keeps every other entry, and \<open>Contains\<close> is false afterwards.
\<close>

theorem Unpin_AccountNotFound:
  "inj (Address_Hex L) \<and> registry_ok w \<longrightarrow>
     (hd_Contains w account \<longleftrightarrow> fst (hd_Unpin L w account) = None)
     \<and> (\<not> hd_Contains w account \<longrightarrow>
           hd_Unpin L w account = (Some (ErrorString ''Account not found.''), w))
     \<and> (hd_Contains w account \<longrightarrow>
          (let w' = snd (hd_Unpin L w account) in
           fst (hd_Unpin L w account) = None
           \<and> hd_accounts w' = filter (\<lambda>a. hd_Address a \<noteq> hd_Address account) (hd_accounts w)
           \<and> hd_Address account \<notin> hd_Address ` set (hd_accounts w')
           \<and> hd_paths w' = (hd_paths w)(hd_Address account := None)
           \<and> \<not> hd_Contains w' account
           \<and> registry_ok w'))"
proof
  assume a: "inj (Address_Hex L) \<and> registry_ok w"
  then have inj: "inj (Address_Hex L)" and ok: "registry_ok w" by simp_all
  show "(hd_Contains w account \<longleftrightarrow> fst (hd_Unpin L w account) = None)
     \<and> (\<not> hd_Contains w account \<longrightarrow>
           hd_Unpin L w account = (Some (ErrorString ''Account not found.''), w))
     \<and> (hd_Contains w account \<longrightarrow>
          (let w' = snd (hd_Unpin L w account) in
           fst (hd_Unpin L w account) = None
           \<and> hd_accounts w' = filter (\<lambda>a. hd_Address a \<noteq> hd_Address account) (hd_accounts w)
           \<and> hd_Address account \<notin> hd_Address ` set (hd_accounts w')
           \<and> hd_paths w' = (hd_paths w)(hd_Address account := None)
           \<and> \<not> hd_Contains w' account
           \<and> registry_ok w'))"
  proof (cases "hd_paths w (hd_Address account)")
    case None
    with ok have "hd_Address account \<notin> hd_Address ` set (hd_accounts w)"
      by (auto simp: registry_ok_def)
    then have "\<forall>acct \<in> set (hd_accounts w). hd_Address acct \<noteq> hd_Address account"
      by (metis imageI)
    with inj have "\<forall>acct \<in> set (hd_accounts w).
        Address_Hex L (hd_Address acct) \<noteq> Address_Hex L (hd_Address account)"
      by (simp add: inj_eq)
    from hd_Unpin_fail [OF this] None show ?thesis by (simp add: hd_Contains_def)
  next
    case (Some p)
    then have c: "hd_paths w (hd_Address account) \<noteq> None" by simp
    note u = hd_Unpin_ok [OF inj ok c]
    have "registry_ok (snd (hd_Unpin L w account))" by (rule hd_Unpin_registry_ok [OF inj ok])
    with u Some show ?thesis by (auto simp: hd_Contains_def Let_def)
  qed
qed

theorem Unpin_AccountNotFound_witness:
  "inj (Address_Hex toy_ethlib) \<and> registry_ok demo_pinned_wallet
   \<and> hd_Contains demo_pinned_wallet demo_account
   \<and> fst (hd_Unpin toy_ethlib demo_pinned_wallet demo_account) = None
   \<and> hd_accounts (snd (hd_Unpin toy_ethlib demo_pinned_wallet demo_account)) = []
   \<and> \<not> hd_Contains (snd (hd_Unpin toy_ethlib demo_pinned_wallet demo_account)) demo_account
   \<and> \<not> hd_Contains demo_hd_wallet demo_account
   \<and> hd_Unpin toy_ethlib demo_hd_wallet demo_account
       = (Some (ErrorString ''Account not found.''), demo_hd_wallet)"
proof -
  obtain address where p:
    "demo_account = \<lparr> hd_Address = address,
          hd_URL = \<lparr> URL_Scheme = [], URL_Path = formatDerivationPath demo_path \<rparr> \<rparr>"
    "hd_paths demo_pinned_wallet address = Some demo_path"
    "hd_accounts demo_pinned_wallet = [demo_account]"
    "registry_ok demo_pinned_wallet"
    using demo_pinned by blast
  have a: "hd_Address demo_account = address" unfolding p(1) by simp
  have i: "inj (Address_Hex toy_ethlib)" by (simp add: toy_ethlib_def inj_hexutil_Encode)
  have c: "hd_Contains demo_pinned_wallet demo_account" by (simp add: hd_Contains_def a p(2))
  have n: "\<not> hd_Contains demo_hd_wallet demo_account" by (simp add: hd_Contains_def demo_hd_wallet_def)
  note t1 = Unpin_AccountNotFound [of toy_ethlib demo_pinned_wallet demo_account, unfolded Let_def]
  note t2 = Unpin_AccountNotFound [of toy_ethlib demo_hd_wallet demo_account]
  from t1 i p(4) c have 1: "fst (hd_Unpin toy_ethlib demo_pinned_wallet demo_account) = None"
    "hd_accounts (snd (hd_Unpin toy_ethlib demo_pinned_wallet demo_account))
       = filter (\<lambda>a. hd_Address a \<noteq> hd_Address demo_account) (hd_accounts demo_pinned_wallet)"
    "\<not> hd_Contains (snd (hd_Unpin toy_ethlib demo_pinned_wallet demo_account)) demo_account"
    by blast+
  from t2 i demo_hd_wallet_ok n
  have 2: "hd_Unpin toy_ethlib demo_hd_wallet demo_account
       = (Some (ErrorString ''Account not found.''), demo_hd_wallet)" by blast
  from 1 2 i p(3,4) c n show ?thesis by simp
qed


subsection \<open>Signing\<close>

text \<open>
  C3. \<open>SignHashWithPassphrase\<close> and \<open>SignTxWithPassphrase\<close> return what \<open>SignHash\<close> and
  \<open>SignTx\<close> return: the passphrase is not read, and two calls that differ in the
  passphrase only give the same result.
\<close>

theorem SignWithPassphrase_passes_through:
  "hd_SignHashWithPassphrase L w account passphrase hash = hd_SignHash L w account hash
   \<and> hd_SignTxWithPassphrase L w account passphrase tx chainID = hd_SignTx L w account tx chainID
   \<and> hd_SignHashWithPassphrase L w account passphrase1 hash
       = hd_SignHashWithPassphrase L w account passphrase2 hash
   \<and> hd_SignTxWithPassphrase L w account passphrase1 tx chainID
       = hd_SignTxWithPassphrase L w account passphrase2 tx chainID"
  by (simp add: hd_SignHashWithPassphrase_def hd_SignTxWithPassphrase_def)

lemma hd_SignTx_unknown:
  "hd_paths w (hd_Address account) = None \<Longrightarrow> hd_SignTx L w account tx chainID = Inl ErrUnknownAccount"
  by (simp add: hd_SignTx_def)

lemma hd_SignTx_Inr:
  "hd_SignTx L w account tx chainID = Inr signedTx \<Longrightarrow>
   hd_paths w (hd_Address account) \<noteq> None \<and> Sender L signedTx = Inr (hd_Address account)"
  by (auto simp: hd_SignTx_def split: option.splits sum.splits if_splits)

lemma hd_SignTx_checked:
  "hd_paths w (hd_Address account) = Some path \<Longrightarrow> hd_derivePrivateKey L w path = Inr privateKey \<Longrightarrow>
   types_SignTx L tx privateKey = Inr signedTx \<Longrightarrow> Sender L signedTx = Inr sender \<Longrightarrow>
   hd_SignTx L w account tx chainID =
     (if sender = hd_Address account then Inr signedTx
      else Inl (ErrorString (''Wrong sender: want '' @ Address_Hex L (hd_Address account)
                  @ '', got '' @ Address_Hex L sender)))"
  by (simp add: hd_SignTx_def)

lemma hd_SignTx_propagates:
  "hd_paths w (hd_Address account) = Some path \<Longrightarrow>
   hd_derivePrivateKey L w path = Inl err
   \<or> (\<exists>privateKey. hd_derivePrivateKey L w path = Inr privateKey
        \<and> (types_SignTx L tx privateKey = Inl err
            \<or> (\<exists>signedTx. types_SignTx L tx privateKey = Inr signedTx \<and> Sender L signedTx = Inl err))) \<Longrightarrow>
   hd_SignTx L w account tx chainID = Inl err"
  by (auto simp: hd_SignTx_def)

text \<open>
  C4. \<open>SignTx\<close> fails with \<open>ErrUnknownAccount\<close> when the address of the account has no
  entry in \<open>paths\<close>. A transaction it returns is for a registered address, and the sender
  recovered from it is the address of the account. When key derivation, signing and the
  recovery of the sender succeed, \<open>SignTx\<close> returns the signed transaction if the
  recovered sender is the address of the account and the "Wrong sender" error if not.
  (An error of one of these three library calls is returned as it is: lemma
  \<open>hd_SignTx_propagates\<close>.)
\<close>

theorem SignTx_sender_checked:
  "(hd_paths w (hd_Address account) = None \<longrightarrow>
      hd_SignTx L w account tx chainID = Inl ErrUnknownAccount)
   \<and> (\<forall>signedTx. hd_SignTx L w account tx chainID = Inr signedTx \<longrightarrow>
         hd_paths w (hd_Address account) \<noteq> None \<and> Sender L signedTx = Inr (hd_Address account))
   \<and> (\<forall>path privateKey signedTx sender.
         hd_paths w (hd_Address account) = Some path \<and> hd_derivePrivateKey L w path = Inr privateKey
         \<and> types_SignTx L tx privateKey = Inr signedTx \<and> Sender L signedTx = Inr sender \<longrightarrow>
         hd_SignTx L w account tx chainID =
           (if sender = hd_Address account then Inr signedTx
            else Inl (ErrorString (''Wrong sender: want '' @ Address_Hex L (hd_Address account)
                        @ '', got '' @ Address_Hex L sender))))"
  using hd_SignTx_unknown [of w account L tx chainID] hd_SignTx_Inr [of L w account tx chainID]
    hd_SignTx_checked [of w account _ L _ tx _ _ chainID]
  by (intro conjI allI impI) blast+

theorem SignTx_sender_checked_witness:
  "hd_paths demo_hd_wallet (hd_Address demo_account) = None
   \<and> hd_SignTx toy_ethlib demo_hd_wallet demo_account (5, None) None = Inl ErrUnknownAccount
   \<and> hd_paths demo_pinned_wallet (hd_Address demo_account) = Some demo_path
   \<and> (\<exists>signedTx. hd_SignTx toy_ethlib demo_pinned_wallet demo_account (5, None) None = Inr signedTx
         \<and> Sender toy_ethlib signedTx = Inr (hd_Address demo_account))"
proof -
  obtain privateKey address where p:
    "hd_derivePrivateKey toy_ethlib demo_pinned_wallet demo_path = Inr privateKey"
    "address = big_endian 20 (3 * privateKey)"
    "demo_account = \<lparr> hd_Address = address,
          hd_URL = \<lparr> URL_Scheme = [], URL_Path = formatDerivationPath demo_path \<rparr> \<rparr>"
    "hd_paths demo_pinned_wallet address = Some demo_path"
    using demo_pinned by blast
  have a: "hd_Address demo_account = address" unfolding p(3) by simp
  have u: "hd_paths demo_hd_wallet (hd_Address demo_account) = None" by (simp add: demo_hd_wallet_def)
  note t = SignTx_sender_checked [of _ demo_account toy_ethlib "(5, None)" None]
  from t [of demo_hd_wallet] u
  have 1: "hd_SignTx toy_ethlib demo_hd_wallet demo_account (5, None) None = Inl ErrUnknownAccount"
    by blast
  have s: "types_SignTx toy_ethlib (5, None) privateKey = Inr (5, Some privateKey)"
    "Sender toy_ethlib (5, Some privateKey) = Inr address"
    by (simp_all add: toy_ethlib_def p(2))
  from t [of demo_pinned_wallet] p(1,4) s a
  have 2: "hd_SignTx toy_ethlib demo_pinned_wallet demo_account (5, None) None = Inr (5, Some privateKey)"
    by (auto simp: a)
  from u 1 2 p(4) s(2) a show ?thesis by simp
qed


subsection \<open>PrivateKeyHex\<close>

lemma hd_PrivateKeyHex_bytes:
  assumes bs: "hd_PrivateKeyBytes L w account = Inr bs" and len: "length bs = 32"
  shows "hd_PrivateKeyHex L w account =
     Inr (if bs ! 1 = 0 then hex_EncodeToString (drop 1 bs) else hex_EncodeToString bs)"
proof -
  from len obtain b0 b1 rest where c: "bs = b0 # b1 # rest" "length rest = 30"
    by (cases bs; cases "tl bs") auto
  have "hd_PrivateKeyHex L w account =
      (let privateKeyHex = hex_EncodeToString bs in
       if privateKeyHex ! 2 = CHR ''0'' \<and> privateKeyHex ! 3 = CHR ''0''
       then Inr (drop 2 privateKeyHex) else Inr privateKeyHex)"
    using bs len by (auto simp: hd_PrivateKeyHex_def hexutil_Encode_def Let_def length_hex_EncodeToString)
  moreover have "hex_EncodeToString bs ! 2 = CHR ''0'' \<and> hex_EncodeToString bs ! 3 = CHR ''0'' \<longleftrightarrow> b1 = 0"
    unfolding c by (simp add: hex_EncodeToString_Cons hexdigit_zero unat_byte_div_16 byte_zero_nibbles)
  ultimately show ?thesis
    unfolding c by (simp add: Let_def hex_EncodeToString_Cons)
qed

lemma hd_PrivateKeyBytes_signing_key:
  "hd_paths w (hd_Address account) = Some path \<Longrightarrow>
   accounts_ParseDerivationPath L (URL_Path (hd_URL account)) = Inr path \<Longrightarrow>
   hd_derivePrivateKey L w path = Inr privateKey \<Longrightarrow>
   hd_PrivateKeyBytes L w account = Inr (FromECDSA L privateKey)
   \<and> hd_SignHash L w account hash = Sign L hash privateKey"
  by (simp add: hd_PrivateKeyBytes_def hd_PrivateKey_def hd_SignHash_def)

lemma length_big_endian: "length (big_endian n x) = n"
  by (simp add: big_endian_def)

lemma big_endian_32_second: "x < 256 ^ 30 \<Longrightarrow> big_endian 32 x ! 1 = 0"
  by (simp add: big_endian_def nth_map [where n = 1 and xs = "[0..<32]"])

lemma formatDerivationPath_foldl:
  "length acc \<le> length (foldl (\<lambda>result component.
             if component \<ge> (0x80000000 :: 32 word)
             then result @ ''/'' @ decimal (unat (component - 0x80000000)) @ [CHR 0x27]
             else result @ ''/'' @ decimal (unat component)) acc path)"
proof (induction path arbitrary: acc)
  case Nil
  then show ?case by simp
next
  case (Cons a path)
  show ?case
  proof (cases "a \<ge> 0x80000000")
    case True
    with Cons [of "acc @ ''/'' @ decimal (unat (a - 0x80000000)) @ [CHR 0x27]"] show ?thesis by simp
  next
    case False
    with Cons [of "acc @ ''/'' @ decimal (unat a)"] show ?thesis by simp
  qed
qed

lemma formatDerivationPath_not_root: "path \<noteq> [] \<Longrightarrow> 1 < length (formatDerivationPath path)"
proof -
  assume "path \<noteq> []"
  then obtain a rest where p: "path = a # rest" by (cases path) auto
  show ?thesis
  proof (cases "a \<ge> 0x80000000")
    case True
    with formatDerivationPath_foldl [of "''m'' @ ''/'' @ decimal (unat (a - 0x80000000)) @ [CHR 0x27]" rest]
    show ?thesis unfolding p by (simp add: formatDerivationPath_def)
  next
    case False
    with formatDerivationPath_foldl [of "''m'' @ ''/'' @ decimal (unat a)" rest]
    show ?thesis unfolding p by (simp add: formatDerivationPath_def)
  qed
qed

lemma child_loop_cong: "Child L1 = Child L2 \<Longrightarrow> child_loop L1 key path = child_loop L2 key path"
  by (induction path arbitrary: key) (simp_all split: sum.splits)

lemma hd_derivePrivateKey_cong:
  "Child L1 = Child L2 \<Longrightarrow> ECPrivKey L1 = ECPrivKey L2 \<Longrightarrow>
   hd_derivePrivateKey L1 w path = hd_derivePrivateKey L2 w path"
proof -
  assume a: "Child L1 = Child L2" "ECPrivKey L1 = ECPrivKey L2"
  have "ECPrivKey L1 key = ECPrivKey L2 key" for key using a(2) by simp
  then show ?thesis
    by (simp add: hd_derivePrivateKey_def child_loop_cong [OF a(1)] split: sum.splits)
qed

lemma toy_ethlib_fields:
  "accounts_ParseDerivationPath toy_ethlib = ParseDerivationPath"
  "accounts_ParseDerivationPath toy_ethlib_ones = ParseDerivationPath"
  "FromECDSA toy_ethlib = big_endian 32"
  "FromECDSA toy_ethlib_ones = (\<lambda>sk. replicate 32 1)"
  by (simp_all add: toy_ethlib_def toy_ethlib_ones_def)

lemma demo_PrivateKeyBytes:
  "\<exists>privateKey. privateKey \<le> 65521
     \<and> hd_PrivateKeyBytes toy_ethlib demo_pinned_wallet demo_account = Inr (big_endian 32 privateKey)
     \<and> hd_PrivateKeyBytes toy_ethlib_ones demo_pinned_wallet demo_account = Inr (replicate 32 1)"
proof -
  obtain privateKey address where p:
    "hd_derivePrivateKey toy_ethlib demo_pinned_wallet demo_path = Inr privateKey"
    "privateKey \<le> 65521"
    "demo_account = \<lparr> hd_Address = address,
          hd_URL = \<lparr> URL_Scheme = [], URL_Path = formatDerivationPath demo_path \<rparr> \<rparr>"
    using demo_pinned by blast
  have "1 < length (formatDerivationPath demo_path)"
    by (rule formatDerivationPath_not_root) (simp add: demo_path_def)
  then have "formatDerivationPath demo_path \<noteq> ''m''" "formatDerivationPath demo_path \<noteq> []"
    by auto
  then have parse: "ParseDerivationPath (formatDerivationPath demo_path) = Inr demo_path"
    by (simp add: ParseDerivationPath_def demo_path_def)
  have o: "hd_derivePrivateKey toy_ethlib_ones demo_pinned_wallet demo_path
      = hd_derivePrivateKey toy_ethlib demo_pinned_wallet demo_path"
    by (rule hd_derivePrivateKey_cong) (simp_all add: toy_ethlib_ones_def)
  have u: "URL_Path (hd_URL demo_account) = formatDerivationPath demo_path" unfolding p(3) by simp
  from p(1,2) parse o show ?thesis
    by (auto simp: hd_PrivateKeyBytes_def hd_PrivateKey_def toy_ethlib_fields u)
qed

text \<open>
  C8. For an account whose private key is 32 bytes long: when the second byte is zero,
  \<open>PrivateKeyHex\<close> returns the 62 characters that encode the last 31 bytes, which decode
  to a byte string other than the key; otherwise it returns the 64 characters that encode
  the key. For a registered account whose URL path parses to the registered path, these
  bytes are those of the key \<open>SignHash\<close> signs with.
\<close>

theorem PrivateKeyHex_second_byte_zero:
  "(hd_PrivateKeyBytes L w account = Inr bs \<and> length bs = 32 \<longrightarrow>
      (bs ! 1 = 0 \<longrightarrow>
         hd_PrivateKeyHex L w account = Inr (hex_EncodeToString (drop 1 bs))
         \<and> length (hex_EncodeToString (drop 1 bs)) = 62
         \<and> hex_DecodeString (hex_EncodeToString (drop 1 bs)) = Some (drop 1 bs)
         \<and> drop 1 bs \<noteq> bs)
      \<and> (bs ! 1 \<noteq> 0 \<longrightarrow>
         hd_PrivateKeyHex L w account = Inr (hex_EncodeToString bs)
         \<and> length (hex_EncodeToString bs) = 64
         \<and> hex_DecodeString (hex_EncodeToString bs) = Some bs))
   \<and> (hd_paths w (hd_Address account) = Some path
        \<and> accounts_ParseDerivationPath L (URL_Path (hd_URL account)) = Inr path
        \<and> hd_derivePrivateKey L w path = Inr privateKey \<longrightarrow>
        hd_PrivateKeyBytes L w account = Inr (FromECDSA L privateKey)
        \<and> hd_SignHash L w account hash = Sign L hash privateKey)"
proof (intro conjI impI)
  assume a: "hd_PrivateKeyBytes L w account = Inr bs \<and> length bs = 32"
  then have h: "hd_PrivateKeyHex L w account =
     Inr (if bs ! 1 = 0 then hex_EncodeToString (drop 1 bs) else hex_EncodeToString bs)"
    using hd_PrivateKeyHex_bytes [of L w account bs] by simp
  {
    assume z: "bs ! 1 = 0"
    from h z show "hd_PrivateKeyHex L w account = Inr (hex_EncodeToString (drop 1 bs))" by simp
    from a show "length (hex_EncodeToString (drop 1 bs)) = 62" by (simp add: length_hex_EncodeToString)
    show "hex_DecodeString (hex_EncodeToString (drop 1 bs)) = Some (drop 1 bs)"
      by (rule hex_DecodeString_EncodeToString)
    from a have "length (drop 1 bs) \<noteq> length bs" by simp
    then show "drop 1 bs \<noteq> bs" by metis
  }
  {
    assume nz: "bs ! 1 \<noteq> 0"
    from h nz show "hd_PrivateKeyHex L w account = Inr (hex_EncodeToString bs)" by simp
    from a show "length (hex_EncodeToString bs) = 64" by (simp add: length_hex_EncodeToString)
    show "hex_DecodeString (hex_EncodeToString bs) = Some bs"
      by (rule hex_DecodeString_EncodeToString)
  }
next
  assume "hd_paths w (hd_Address account) = Some path
        \<and> accounts_ParseDerivationPath L (URL_Path (hd_URL account)) = Inr path
        \<and> hd_derivePrivateKey L w path = Inr privateKey"
  then show "hd_PrivateKeyBytes L w account = Inr (FromECDSA L privateKey)"
    "hd_SignHash L w account hash = Sign L hash privateKey"
    using hd_PrivateKeyBytes_signing_key [of w account path L privateKey hash] by simp_all
qed

theorem PrivateKeyHex_second_byte_zero_witness:
  "\<exists>bs. hd_PrivateKeyBytes toy_ethlib demo_pinned_wallet demo_account = Inr bs
      \<and> length bs = 32 \<and> bs ! 1 = 0
      \<and> hd_PrivateKeyHex toy_ethlib demo_pinned_wallet demo_account = Inr (hex_EncodeToString (drop 1 bs))
      \<and> length (hex_EncodeToString (drop 1 bs)) = 62
      \<and> hd_PrivateKeyBytes toy_ethlib_ones demo_pinned_wallet demo_account = Inr (replicate 32 1)
      \<and> hd_PrivateKeyHex toy_ethlib_ones demo_pinned_wallet demo_account
          = Inr (hex_EncodeToString (replicate 32 1))
      \<and> length (hex_EncodeToString (replicate 32 1)) = 64"
proof -
  obtain privateKey where p: "privateKey \<le> 65521"
    "hd_PrivateKeyBytes toy_ethlib demo_pinned_wallet demo_account = Inr (big_endian 32 privateKey)"
    "hd_PrivateKeyBytes toy_ethlib_ones demo_pinned_wallet demo_account = Inr (replicate 32 1)"
    using demo_PrivateKeyBytes by blast
  let ?bs = "big_endian 32 privateKey"
  have l: "length ?bs = 32" by (rule length_big_endian)
  from p(1) have "privateKey < 256 ^ 30" by simp
  then have z: "?bs ! 1 = 0" by (rule big_endian_32_second)
  have l1: "length (replicate 32 (1 :: byte)) = 32" "replicate 32 (1 :: byte) ! 1 \<noteq> 0" by simp_all
  from PrivateKeyHex_second_byte_zero [of toy_ethlib demo_pinned_wallet demo_account ?bs] p(2) l z
  have 1: "hd_PrivateKeyHex toy_ethlib demo_pinned_wallet demo_account = Inr (hex_EncodeToString (drop 1 ?bs))"
    "length (hex_EncodeToString (drop 1 ?bs)) = 62" by blast+
  from PrivateKeyHex_second_byte_zero [of toy_ethlib_ones demo_pinned_wallet demo_account "replicate 32 1"]
    p(3) l1
  have 2: "hd_PrivateKeyHex toy_ethlib_ones demo_pinned_wallet demo_account
          = Inr (hex_EncodeToString (replicate 32 1))"
    "length (hex_EncodeToString (replicate 32 (1 :: byte))) = 64" by blast+
  from p(2,3) l z 1 2 show ?thesis by blast
qed



subsection \<open>Concurrent calls\<close>

text \<open>A writer excludes every other thread; readers exclude writers only.\<close>

lemma Lock_exclusive: "Lock mu = Some mu' \<Longrightarrow> RLock mu' = None \<and> Lock mu' = None"
  by (auto simp: Lock_def RLock_def split: if_splits)

lemma RLock_shared: "RLock mu = Some mu' \<Longrightarrow> RLock mu' \<noteq> None \<and> Lock mu' = None"
  by (auto simp: Lock_def RLock_def split: if_splits)

text \<open>A thread that runs alone does what the function \<open>hd_Unpin\<close> does.\<close>

lemma Unpin_alone:
  "run_Unpin L account a2 (if fst (hd_Unpin L w account) = None then [1, 1, 1, 1, 1] else [1, 1, 1])
       ((w, unlocked), At_RLock, pc2) =
     Some ((snd (hd_Unpin L w account), unlocked), Finished (Returned (fst (hd_Unpin L w account))), pc2)"
proof (cases "Unpin_loop L (hd_accounts w) 0 account")
  case None
  then show ?thesis
    by (simp add: hd_Unpin_def RLock_def RUnlock_def unlocked_def)
next
  case (Some i)
  from Unpin_loop_Some [OF Some] have "i < length (hd_accounts w)" by simp
  with Some show ?thesis
    by (simp add: hd_Unpin_def RLock_def RUnlock_def unlocked_def)
qed

lemma hex_A_B: "hexutil_Encode (hd_Address account_A) \<noteq> hexutil_Encode (hd_Address account_B)"
  by (simp add: inj_eq [OF inj_hexutil_Encode] account_A_def account_B_def)

lemma Unpin_A_then_B:
  "fst (hd_Unpin toy_ethlib two_pinned account_A) = None
   \<and> fst (hd_Unpin toy_ethlib (snd (hd_Unpin toy_ethlib two_pinned account_A)) account_B) = None
   \<and> hd_accounts (snd (hd_Unpin toy_ethlib (snd (hd_Unpin toy_ethlib two_pinned account_A)) account_B)) = []"
  using hex_A_B by (simp add: hd_Unpin_def two_pinned_def toy_ethlib_def)

text \<open>
  C10. \<open>Unpin\<close> takes the shared lock, not the exclusive one, so two threads can be inside
  it together: after each has taken \<open>RLock\<close> the mutex has two readers and no writer. On
  the wallet with the accounts A and B pinned, with thread 1 unpinning A and thread 2
  unpinning B, there is a schedule in which thread 2 finds B at index 1, thread 1 then
  removes A, and the assignment of thread 2 panics on \<open>w.accounts[2:]\<close>: thread 1 returns
  nil, thread 2 panics, and B is still pinned. Run one after the other, both calls
  return nil and leave no account (lemma \<open>Unpin_A_then_B\<close>).
\<close>

theorem concurrent_Unpin_panics:
  "(case run_Unpin toy_ethlib account_A account_B [1, 2] ((two_pinned, unlocked), At_RLock, At_RLock) of
      Some ((w, mu), pc1, pc2) \<Rightarrow> readers mu = 2 \<and> \<not> writer mu \<and> pc1 = At_range \<and> pc2 = At_range
    | None \<Rightarrow> False)
   \<and> (case run_Unpin toy_ethlib account_A account_B [1, 2, 2, 1, 1, 2, 1, 1, 2]
             ((two_pinned, unlocked), At_RLock, At_RLock) of
      Some ((w, mu), pc1, pc2) \<Rightarrow>
        pc1 = Finished (Returned None) \<and> pc2 = Finished Panicked
        \<and> mu = unlocked \<and> hd_accounts w = [account_B] \<and> hd_Contains w account_B
    | None \<Rightarrow> False)"
  using hex_A_B hex_A_B [symmetric]
  by (simp add: two_pinned_def toy_ethlib_def RLock_def RUnlock_def unlocked_def hd_Contains_def
      account_A_def account_B_def)


end
